theory Spec2Isabelle
  imports Complex_Main
begin

section \<open>Download task orchestrator\<close>

text \<open>
  A shallow embedding of the download manager service (the task registry, its progress
  model and its simulated progress driver), of the \<^verbatim>\<open>POST /api/download\<close> route that
  starts a task, and of the \<^verbatim>\<open>GET\<close> endpoint that runs the external conversion tool.

  JavaScript numbers are modelled as real numbers: arithmetic is exact, and the values
  \<^verbatim>\<open>NaN\<close> and \<^verbatim>\<open>Infinity\<close> are outside the model. Timestamps (\<^verbatim>\<open>Date.now()\<close>) are
  integers. Every value the source draws from its environment (a generated task id, the
  clock, \<^verbatim>\<open>Math.random()\<close>, a file id) is a parameter of the function that draws it.
\<close>

subsection \<open>Data model\<close>

datatype VideoQuality = Q360p | Q480p | Q720p | Q1080p | Q4k

datatype VideoFormat = Mp4 | Mp3

datatype Platform = Youtube | Tiktok

record QualityOption =
  quality :: VideoQuality
  format :: VideoFormat
  fileSize :: real
  bitrate :: "real option"
  available :: bool
  recommended :: bool

record VideoInfo =
  video_id :: string
  title :: string
  description :: string
  thumbnail :: string
  duration :: real
  platform :: Platform
  qualities :: "QualityOption list"

datatype DownloadStatus = Pending | Downloading | Paused | Completed | Failed

record DownloadProgress =
  percentage :: real
  downloadedBytes :: real
  totalBytes :: real
  speed :: real
  estimatedTimeRemaining :: real

text \<open>\<^verbatim>\<open>Partial<AudioMetadata>\<close>: every field may be absent.\<close>

record AudioMetadataPartial =
  meta_title :: "string option"
  meta_artist :: "string option"
  meta_album :: "string option"
  meta_year :: "string option"
  meta_genre :: "string option"

record DownloadTask =
  task_id :: string
  videoInfo :: VideoInfo
  task_quality :: QualityOption
  status :: DownloadStatus
  progress :: DownloadProgress
  startedAt :: int
  pausedAt :: "int option"
  completedAt :: "int option"
  task_error :: "string option"
  audioMetadata :: "AudioMetadataPartial option"

definition MIN_AUDIO_BITRATE :: real where
  "MIN_AUDIO_BITRATE = 128"

subsection \<open>Progress model\<close>

text \<open>\<^verbatim>\<open>Math.round\<close>: the nearest integer, a tie going up.\<close>

definition Math_round :: "real \<Rightarrow> real" where
  "Math_round x = of_int \<lfloor>x + 1 / 2\<rfloor>"

definition Math_ceil :: "real \<Rightarrow> real" where
  "Math_ceil x = of_int \<lceil>x\<rceil>"

definition createInitialProgress :: "real \<Rightarrow> DownloadProgress" where
  "createInitialProgress total_bytes =
     \<lparr>percentage = 0, downloadedBytes = 0, totalBytes = total_bytes, speed = 0,
      estimatedTimeRemaining = 0\<rparr>"

definition calculatePercentage :: "real \<Rightarrow> real \<Rightarrow> real" where
  "calculatePercentage downloaded total_bytes =
     (if total_bytes \<le> 0 then 0
      else let pct = (downloaded / total_bytes) * 100
           in min 100 (max 0 (Math_round (pct * 100) / 100)))"

definition calculateETA :: "real \<Rightarrow> real \<Rightarrow> real" where
  "calculateETA remainingBytes spd =
     (if spd \<le> 0 \<or> remainingBytes \<le> 0 then 0
      else Math_ceil (remainingBytes / spd))"

definition updateProgress :: "DownloadTask \<Rightarrow> real \<Rightarrow> real \<Rightarrow> DownloadProgress" where
  "updateProgress task downloaded spd =
     (let total_bytes = totalBytes (progress task);
          remainingBytes = total_bytes - downloaded
      in \<lparr>percentage = calculatePercentage downloaded total_bytes,
          downloadedBytes = downloaded,
          totalBytes = total_bytes,
          speed = spd,
          estimatedTimeRemaining = calculateETA remainingBytes spd\<rparr>)"

subsection \<open>The progress formulas as the specification words them\<close>

text \<open>
  The specification writes \<open>percentage = clamp(round(downloaded/total*100, 2), 0, 100)\<close>.
  These two definitions follow those words: rounding to \<open>n\<close> decimal places, and clamping
  into an interval.
\<close>

definition spec_round :: "real \<Rightarrow> nat \<Rightarrow> real" where
  "spec_round x n = of_int (round (x * 10 ^ n)) / 10 ^ n"

definition spec_clamp :: "real \<Rightarrow> real \<Rightarrow> real \<Rightarrow> real" where
  "spec_clamp x lo hi = (if x < lo then lo else if hi < x then hi else x)"

subsection \<open>Task registry and simulated progress driver\<close>

text \<open>
  A thrown \<^verbatim>\<open>Error\<close> is a value carrying its message. Every operation returns its
  outcome together with the manager's state after it, so that what a failing call leaves
  behind can be stated.
\<close>

datatype js_error = Error string

fun statusString :: "DownloadStatus \<Rightarrow> string" where
  "statusString Pending = ''pending''"
| "statusString Downloading = ''downloading''"
| "statusString Paused = ''paused''"
| "statusString Completed = ''completed''"
| "statusString Failed = ''failed''"

text \<open>
  A live \<^verbatim>\<open>setInterval\<close> timer: its callback closes over the task id and the base
  speed drawn when the timer was created.
\<close>

record Timer =
  timer_taskId :: string
  baseSpeed :: real

text \<open>
  The module state: the two maps \<^verbatim>\<open>activeDownloads\<close> and \<^verbatim>\<open>downloadIntervals\<close>, and
  the timers of the event loop that have been set and not cleared, keyed by their handle.
\<close>

record Manager =
  activeDownloads :: "string \<rightharpoonup> DownloadTask"
  downloadIntervals :: "string \<rightharpoonup> nat"
  timers :: "nat \<rightharpoonup> Timer"
  nextHandle :: nat

definition initialManager :: Manager where
  "initialManager =
     \<lparr>activeDownloads = Map.empty, downloadIntervals = Map.empty, timers = Map.empty,
      nextHandle = 0\<rparr>"

definition clearInterval :: "nat \<Rightarrow> Manager \<Rightarrow> Manager" where
  "clearInterval h m = m\<lparr>timers := (timers m)(h := None)\<rparr>"

text \<open>
  \<^verbatim>\<open>simulateDownloadProgress\<close>: \<open>r\<close> is the value of \<^verbatim>\<open>Math.random()\<close> that fixes the base
  speed. The new timer gets a fresh handle, stored under the task id.
\<close>

definition simulateDownloadProgress :: "string \<Rightarrow> real \<Rightarrow> Manager \<Rightarrow> Manager" where
  "simulateDownloadProgress taskId r m =
     (case activeDownloads m taskId of
        None \<Rightarrow> m
      | Some task \<Rightarrow>
          let base = 500000 + r * 1500000;
              h = nextHandle m
          in m\<lparr>timers := (timers m)(h \<mapsto> \<lparr>timer_taskId = taskId, baseSpeed = base\<rparr>),
               nextHandle := Suc h,
               downloadIntervals := (downloadIntervals m)(taskId \<mapsto> h)\<rparr>)"

text \<open>
  One firing of the interval callback of timer \<open>h\<close>; \<open>r\<close> is the callback's
  \<^verbatim>\<open>Math.random()\<close> and \<open>now\<close> its \<^verbatim>\<open>Date.now()\<close>. A cleared timer does not fire.
\<close>

definition stopInterval :: "nat \<Rightarrow> string \<Rightarrow> Manager \<Rightarrow> Manager" where
  "stopInterval h taskId m =
     (clearInterval h m)\<lparr>downloadIntervals := (downloadIntervals m)(taskId := None)\<rparr>"

definition intervalCallback :: "nat \<Rightarrow> real \<Rightarrow> int \<Rightarrow> Manager \<Rightarrow> Manager" where
  "intervalCallback h r now m =
     (case timers m h of
        None \<Rightarrow> m
      | Some tm \<Rightarrow>
          let taskId = timer_taskId tm in
          (case activeDownloads m taskId of
             None \<Rightarrow> stopInterval h taskId m
           | Some currentTask \<Rightarrow>
               if status currentTask \<noteq> Downloading then stopInterval h taskId m
               else
                 let spd = baseSpeed tm * (8 / 10 + r * (4 / 10));
                     bytesPerInterval = spd * (1 / 10);
                     newDownloadedBytes =
                       min (downloadedBytes (progress currentTask) + bytesPerInterval)
                           (totalBytes (progress currentTask));
                     p = updateProgress currentTask newDownloadedBytes spd
                 in if 100 \<le> percentage p then
                      let done = currentTask
                            \<lparr>status := Completed,
                             completedAt := Some now,
                             progress := p\<lparr>percentage := 100,
                                           downloadedBytes := totalBytes p,
                                           estimatedTimeRemaining := 0\<rparr>\<rparr>
                      in stopInterval h taskId
                           (m\<lparr>activeDownloads := (activeDownloads m)(taskId \<mapsto> done)\<rparr>)
                    else
                      m\<lparr>activeDownloads :=
                          (activeDownloads m)(taskId \<mapsto> currentTask\<lparr>progress := p\<rparr>)\<rparr>))"

text \<open>
  \<^verbatim>\<open>startDownload\<close>: \<open>taskId\<close> is the id \<^verbatim>\<open>generateTaskId()\<close> returns, \<open>now\<close> the clock
  and \<open>r\<close> the random number of the progress simulation.
\<close>

definition startDownload ::
  "VideoInfo \<Rightarrow> QualityOption \<Rightarrow> string \<Rightarrow> int \<Rightarrow> real \<Rightarrow> Manager
     \<Rightarrow> (js_error + DownloadTask) \<times> Manager" where
  "startDownload vi q taskId now r m =
     (if \<not> available q then
        (Inl (Error ''Selected quality is not available for this video''), m)
      else
        let task = \<lparr>task_id = taskId, videoInfo = vi, task_quality = q,
                    status = Downloading,
                    progress = createInitialProgress (fileSize q),
                    startedAt = now, pausedAt = None, completedAt = None,
                    task_error = None, audioMetadata = None\<rparr>;
            m1 = m\<lparr>activeDownloads := (activeDownloads m)(taskId \<mapsto> task)\<rparr>
        in (Inr task, simulateDownloadProgress taskId r m1))"

definition pauseDownload :: "string \<Rightarrow> int \<Rightarrow> Manager \<Rightarrow> (js_error + unit) \<times> Manager" where
  "pauseDownload taskId now m =
     (case activeDownloads m taskId of
        None \<Rightarrow> (Inl (Error (''Download task not found: '' @ taskId)), m)
      | Some task \<Rightarrow>
          if status task \<noteq> Downloading then
            (Inl (Error (''Cannot pause download with status: '' @ statusString (status task))), m)
          else
            let m1 = (case downloadIntervals m taskId of
                        None \<Rightarrow> m
                      | Some h \<Rightarrow> stopInterval h taskId m);
                task' = task\<lparr>status := Paused, pausedAt := Some now,
                             progress := (progress task)\<lparr>speed := 0\<rparr>\<rparr>
            in (Inr (), m1\<lparr>activeDownloads := (activeDownloads m1)(taskId \<mapsto> task')\<rparr>))"

definition resumeDownload :: "string \<Rightarrow> real \<Rightarrow> Manager \<Rightarrow> (js_error + unit) \<times> Manager" where
  "resumeDownload taskId r m =
     (case activeDownloads m taskId of
        None \<Rightarrow> (Inl (Error (''Download task not found: '' @ taskId)), m)
      | Some task \<Rightarrow>
          if status task \<noteq> Paused then
            (Inl (Error (''Cannot resume download with status: '' @ statusString (status task))), m)
          else
            let task' = task\<lparr>status := Downloading, pausedAt := None\<rparr>;
                m1 = m\<lparr>activeDownloads := (activeDownloads m)(taskId \<mapsto> task')\<rparr>
            in (Inr (), simulateDownloadProgress taskId r m1))"

definition cancelDownload :: "string \<Rightarrow> Manager \<Rightarrow> (js_error + unit) \<times> Manager" where
  "cancelDownload taskId m =
     (case activeDownloads m taskId of
        None \<Rightarrow> (Inl (Error (''Download task not found: '' @ taskId)), m)
      | Some task \<Rightarrow>
          let m1 = (case downloadIntervals m taskId of
                      None \<Rightarrow> m
                    | Some h \<Rightarrow> stopInterval h taskId m)
          in (Inr (), m1\<lparr>activeDownloads := (activeDownloads m1)(taskId := None)\<rparr>))"

subsection \<open>Audio extraction and MP3 tasks\<close>



definition validateAudioBitrate :: "real \<Rightarrow> bool" where
  "validateAudioBitrate b = (MIN_AUDIO_BITRATE \<le> b)"



text \<open>
  \<^verbatim>\<open>startMP3Download\<close>. The bitrate guard is \<^verbatim>\<open>mp3Quality.bitrate && mp3Quality.bitrate < 128\<close>:
  an absent bitrate and the bitrate \<open>0\<close> are falsy and pass it. The returned task is the
  object stored in the registry, so attaching the metadata changes the stored task too.
\<close>

definition bitrateTooLow :: "QualityOption \<Rightarrow> bool" where
  "bitrateTooLow q =
     (case bitrate q of None \<Rightarrow> False | Some b \<Rightarrow> b \<noteq> 0 \<and> b < MIN_AUDIO_BITRATE)"

definition startMP3Download ::
  "VideoInfo \<Rightarrow> AudioMetadataPartial option \<Rightarrow> string \<Rightarrow> int \<Rightarrow> real \<Rightarrow> Manager
     \<Rightarrow> (js_error + DownloadTask) \<times> Manager" where
  "startMP3Download vi metadata taskId now r m =
     (case find (\<lambda>q. format q = Mp3) (qualities vi) of
        None \<Rightarrow> (Inl (Error ''MP3 format is not available for this video''), m)
      | Some mp3Quality \<Rightarrow>
          if \<not> available mp3Quality then
            (Inl (Error ''MP3 format is not available for this video''), m)
          else if bitrateTooLow mp3Quality then
            (Inl (Error ''Audio bitrate must be at least 128kbps''), m)
          else
            (case startDownload vi mp3Quality taskId now r m of
               (Inl e, m') \<Rightarrow> (Inl e, m')
             | (Inr task, m') \<Rightarrow>
                 (case metadata of
                    None \<Rightarrow> (Inr task, m')
                  | Some md \<Rightarrow>
                      let task' = task\<lparr>audioMetadata := Some md\<rparr>
                      in (Inr task',
                          m'\<lparr>activeDownloads := (activeDownloads m')(taskId \<mapsto> task')\<rparr>))))"

subsection \<open>The route that starts a download\<close>

text \<open>
  \<^verbatim>\<open>POST /api/download\<close>, from the parsed request body on. A response is an error with
  its code and HTTP status, or the started task's id and status. The message of an error
  response is kept only where it is the message of a caught \<^verbatim>\<open>Error\<close>; the route's own
  fixed messages are \<open>None\<close>.
\<close>

record DownloadRequest =
  req_videoInfo :: "VideoInfo option"
  req_quality :: "QualityOption option"
  req_audioMetadata :: "AudioMetadataPartial option"

datatype ErrorCode = INVALID_REQUEST | QUALITY_UNAVAILABLE | DOWNLOAD_FAILED | MISSING_VIDEO_INFO

datatype PostResponse =
    ErrorResponse "string option" ErrorCode nat
  | DownloadResponse string DownloadStatus nat

definition POST ::
  "DownloadRequest \<Rightarrow> string \<Rightarrow> int \<Rightarrow> real \<Rightarrow> Manager \<Rightarrow> PostResponse \<times> Manager" where
  "POST body taskId now r m =
     (case req_videoInfo body of
        None \<Rightarrow> (ErrorResponse None MISSING_VIDEO_INFO 400, m)
      | Some vi \<Rightarrow>
          if video_id vi = [] then (ErrorResponse None MISSING_VIDEO_INFO 400, m)
          else
            (case req_quality body of
               None \<Rightarrow> (ErrorResponse None INVALID_REQUEST 400, m)
             | Some q \<Rightarrow>
                 if \<not> available q then (ErrorResponse None QUALITY_UNAVAILABLE 400, m)
                 else
                   (case (if format q = Mp3
                          then startMP3Download vi (req_audioMetadata body) taskId now r m
                          else startDownload vi q taskId now r m) of
                      (Inl (Error msg), m') \<Rightarrow> (ErrorResponse (Some msg) DOWNLOAD_FAILED 500, m')
                    | (Inr task, m') \<Rightarrow>
                        (DownloadResponse (task_id task) (status task) 200, m'))))"

subsection \<open>Sequences of operations\<close>

text \<open>
  The operations that change the registry, each with the values it draws from its
  environment, and the state reached by running a list of them from the empty registry.
\<close>

datatype Operation =
    Start VideoInfo QualityOption string int real
  | StartMP3 VideoInfo "AudioMetadataPartial option" string int real
  | Tick nat real int
  | Pause string int
  | Resume string real
  | Cancel string

fun step :: "Manager \<Rightarrow> Operation \<Rightarrow> Manager" where
  "step m (Start vi q taskId now r) = snd (startDownload vi q taskId now r m)"
| "step m (StartMP3 vi md taskId now r) = snd (startMP3Download vi md taskId now r m)"
| "step m (Tick h r now) = intervalCallback h r now m"
| "step m (Pause taskId now) = snd (pauseDownload taskId now m)"
| "step m (Resume taskId r) = snd (resumeDownload taskId r m)"
| "step m (Cancel taskId) = snd (cancelDownload taskId m)"

definition run :: "Operation list \<Rightarrow> Manager" where
  "run ops = foldl step initialManager ops"

text \<open>\<^verbatim>\<open>Math.random()\<close> returns a number of \<open>[0, 1)\<close>.\<close>

fun validOperation :: "Operation \<Rightarrow> bool" where
  "validOperation (Start vi q taskId now r) = (0 \<le> r \<and> r < 1)"
| "validOperation (StartMP3 vi md taskId now r) = (0 \<le> r \<and> r < 1)"
| "validOperation (Tick h r now) = (0 \<le> r \<and> r < 1)"
| "validOperation (Pause taskId now) = True"
| "validOperation (Resume taskId r) = (0 \<le> r \<and> r < 1)"
| "validOperation (Cancel taskId) = True"

text \<open>A run of interval callbacks: each fires a timer handle with its random draw and clock.\<close>

definition runTicks :: "Manager \<Rightarrow> (nat \<times> real \<times> int) list \<Rightarrow> Manager" where
  "runTicks m ticks = foldl (\<lambda>s (h, r, now). intervalCallback h r now s) m ticks"

subsection \<open>The endpoint that runs the external tool\<close>

text \<open>
  The scratch directory is the list of its files, name and contents, in the order
  \<^verbatim>\<open>readdir\<close> lists them. File-system calls may fail: \<open>IOFaults\<close> says which.
  The external tool is a parameter: run on the directory, it returns how
  \<^verbatim>\<open>execAsync\<close> ended (its standard output, or the error of a non-zero exit, a timeout
  or an overflowing buffer) and the directory it leaves behind.
\<close>

type_synonym ScratchDir = "(string \<times> string) list"

record IOFaults =
  readdir_fails :: bool
  readFile_fails :: "string \<Rightarrow> bool"
  unlink_fails :: "string \<Rightarrow> bool"

datatype ExecOutcome = ExecDone string | ExecFailed string

type_synonym ExternalTool = "ScratchDir \<Rightarrow> ExecOutcome \<times> ScratchDir"

definition startsWith :: "string \<Rightarrow> string \<Rightarrow> bool" where
  "startsWith pre s = (take (length pre) s = pre)"

definition existsSync :: "ScratchDir \<Rightarrow> string \<Rightarrow> bool" where
  "existsSync dir name = (name \<in> set (map fst dir))"

definition readdir :: "IOFaults \<Rightarrow> ScratchDir \<Rightarrow> string list option" where
  "readdir io dir = (if readdir_fails io then None else Some (map fst dir))"

definition readFile :: "IOFaults \<Rightarrow> ScratchDir \<Rightarrow> string \<Rightarrow> string option" where
  "readFile io dir name = (if readFile_fails io name then None else map_of dir name)"

definition unlink :: "IOFaults \<Rightarrow> string \<Rightarrow> ScratchDir \<Rightarrow> ScratchDir option" where
  "unlink io name dir =
     (if unlink_fails io name \<or> \<not> existsSync dir name then None
      else Some (filter (\<lambda>entry. fst entry \<noteq> name) dir))"

text \<open>
  \<^verbatim>\<open>cleanupTempFiles\<close> is called with \<^verbatim>\<open>path.join(TEMP_DIR, fileId)\<close>, whose base name is
  the file id (a UUID has no path separator); the model takes that base name. Both
  \<^verbatim>\<open>catch\<close> blocks ignore the failure.
\<close>

definition cleanupTempFiles :: "IOFaults \<Rightarrow> string \<Rightarrow> ScratchDir \<Rightarrow> ScratchDir" where
  "cleanupTempFiles io baseName dir =
     (case readdir io dir of
        None \<Rightarrow> dir
      | Some files \<Rightarrow>
          foldl (\<lambda>d file.
                   if startsWith baseName file then
                     (case unlink io file d of None \<Rightarrow> d | Some d' \<Rightarrow> d')
                   else d)
                dir files)"

datatype GetResponse =
    JsonError "string option" nat
  | FileResponse string string

definition contentType :: "string \<Rightarrow> string" where
  "contentType fmt = (if fmt = ''mp3'' then ''audio/mpeg'' else ''video/mp4'')"

text \<open>
  \<^verbatim>\<open>GET\<close>: \<open>url\<close> and \<open>fmt\<close> are the query parameters, \<open>fileId\<close> the value of
  \<^verbatim>\<open>randomUUID()\<close>. The response carries the file's bytes and content type (the download
  file name, cut from the tool's output, is left out), or an error with its HTTP status;
  the error's message is kept where it is the message of the tool's failure.
\<close>

definition GET ::
  "IOFaults \<Rightarrow> ExternalTool \<Rightarrow> string option \<Rightarrow> string option \<Rightarrow> string \<Rightarrow> ScratchDir
     \<Rightarrow> GetResponse \<times> ScratchDir" where
  "GET io tool url fmt fileId dir =
     (if url = None \<or> url = Some [] then (JsonError None 400, dir)
      else
        let format = (case fmt of None \<Rightarrow> ''mp4'' | Some f \<Rightarrow> if f = [] then ''mp4'' else f);
            ext = (if format = ''mp3'' then ''mp3'' else ''mp4'')
        in (case tool dir of
              (ExecFailed msg, dir1) \<Rightarrow> (JsonError (Some msg) 500, dir1)
            | (ExecDone out, dir1) \<Rightarrow>
                let outputFile = fileId @ ''.'' @ ext in
                if \<not> existsSync dir1 outputFile then
                  (case readdir io dir1 of
                     None \<Rightarrow> (JsonError None 500, dir1)
                   | Some files \<Rightarrow>
                       (case find (startsWith fileId) files of
                          None \<Rightarrow> (JsonError None 500, dir1)
                        | Some matchingFile \<Rightarrow>
                            (case readFile io dir1 matchingFile of
                               None \<Rightarrow> (JsonError None 500, dir1)
                             | Some fileBuffer \<Rightarrow>
                                 (FileResponse fileBuffer (contentType format),
                                  cleanupTempFiles io fileId dir1))))
                else
                  (case readFile io dir1 outputFile of
                     None \<Rightarrow> (JsonError None 500, dir1)
                   | Some fileBuffer \<Rightarrow>
                       (FileResponse fileBuffer (contentType format),
                        cleanupTempFiles io fileId dir1))))"

text \<open>The files of a directory whose names begin with a work token.\<close>

definition tokenFiles :: "string \<Rightarrow> ScratchDir \<Rightarrow> string list" where
  "tokenFiles token dir = filter (startsWith token) (map fst dir)"

subsection \<open>Auxiliary notions for the proofs\<close>

text \<open>What the registry says of a task: its status and its downloaded bytes.\<close>

definition statusOf :: "Manager \<Rightarrow> string \<Rightarrow> DownloadStatus option" where
  "statusOf m taskId = map_option status (activeDownloads m taskId)"

definition downloadedOf :: "Manager \<Rightarrow> string \<Rightarrow> real option" where
  "downloadedOf m taskId = map_option (downloadedBytes \<circ> progress) (activeDownloads m taskId)"

text \<open>
  What the interval callback makes of a task that is \<open>downloading\<close>: the task with its
  progress advanced, completed when the percentage reaches 100.
\<close>

definition advance :: "Timer \<Rightarrow> real \<Rightarrow> int \<Rightarrow> DownloadTask \<Rightarrow> DownloadTask" where
  "advance tm r now t =
     (let spd = baseSpeed tm * (8 / 10 + r * (4 / 10));
          newDownloadedBytes =
            min (downloadedBytes (progress t) + spd * (1 / 10)) (totalBytes (progress t));
          p = updateProgress t newDownloadedBytes spd
      in if 100 \<le> percentage p then
           t\<lparr>status := Completed, completedAt := Some now,
             progress := p\<lparr>percentage := 100, downloadedBytes := totalBytes p,
                           estimatedTimeRemaining := 0\<rparr>\<rparr>
         else t\<lparr>progress := p\<rparr>)"

text \<open>The data-model invariants of one task, and of every task of the registry.\<close>

definition taskInvariant :: "DownloadTask \<Rightarrow> bool" where
  "taskInvariant t =
     (0 \<le> percentage (progress t) \<and> percentage (progress t) \<le> 100
      \<and> (0 < totalBytes (progress t) \<longrightarrow>
           downloadedBytes (progress t) \<le> totalBytes (progress t)))"

definition registryInvariant :: "Manager \<Rightarrow> bool" where
  "registryInvariant m = (\<forall>taskId t. activeDownloads m taskId = Some t \<longrightarrow> taskInvariant t)"

text \<open>
  Every live timer has a positive base speed; every task that is not completed and has a
  positive total size has bytes left to download.
\<close>

definition timersInvariant :: "Manager \<Rightarrow> bool" where
  "timersInvariant m = (\<forall>h tm. timers m h = Some tm \<longrightarrow> 0 < baseSpeed tm)"

definition unfinishedInvariant :: "Manager \<Rightarrow> bool" where
  "unfinishedInvariant m =
     (\<forall>taskId t. activeDownloads m taskId = Some t \<and> status t \<noteq> Completed
                   \<and> 0 < totalBytes (progress t) \<longrightarrow>
                 downloadedBytes (progress t) < totalBytes (progress t))"

text \<open>A task of total size \<open>0\<close> that is not completed has \<open>0\<close> downloaded bytes.\<close>

definition zeroSizeInvariant :: "Manager \<Rightarrow> bool" where
  "zeroSizeInvariant m =
     (\<forall>taskId t. activeDownloads m taskId = Some t \<and> status t \<noteq> Completed
                   \<and> totalBytes (progress t) = 0 \<longrightarrow>
                 downloadedBytes (progress t) = 0)"

text \<open>
  The task \<open>taskId\<close> has total size \<open>0\<close>, is \<open>downloading\<close> at \<open>0\<close> percent, and the
  timer bound to it is live.
\<close>

definition zeroSizeRunning :: "string \<Rightarrow> Manager \<Rightarrow> bool" where
  "zeroSizeRunning taskId m =
     (\<exists>task h tm. activeDownloads m taskId = Some task
        \<and> status task = Downloading
        \<and> totalBytes (progress task) = 0
        \<and> percentage (progress task) = 0
        \<and> downloadIntervals m taskId = Some h
        \<and> timers m h = Some tm \<and> timer_taskId tm = taskId)"

subsection \<open>Example values\<close>

text \<open>Concrete inputs at which the theorems below are instantiated.\<close>

definition exampleQuality :: QualityOption where
  "exampleQuality =
     \<lparr>quality = Q720p, format = Mp4, fileSize = 1000000, bitrate = Some 5000,
      available = True, recommended = True\<rparr>"

definition exampleVideo :: VideoInfo where
  "exampleVideo =
     \<lparr>video_id = ''abc'', title = ''A video'', description = [], thumbnail = [],
      duration = 60, platform = Youtube, qualities = [exampleQuality]\<rparr>"

definition exampleTask :: "DownloadStatus \<Rightarrow> DownloadTask" where
  "exampleTask st =
     \<lparr>task_id = ''dl_1'', videoInfo = exampleVideo, task_quality = exampleQuality,
      status = st,
      progress = \<lparr>percentage = 100, downloadedBytes = 1000000, totalBytes = 1000000,
                  speed = 600000, estimatedTimeRemaining = 0\<rparr>,
      startedAt = 10, pausedAt = None, completedAt = None, task_error = None,
      audioMetadata = None\<rparr>"

definition exampleManager :: "DownloadStatus \<Rightarrow> Manager" where
  "exampleManager st = initialManager\<lparr>activeDownloads := [''dl_1'' \<mapsto> exampleTask st]\<rparr>"

definition exampleFresh :: DownloadTask where
  "exampleFresh = (exampleTask Downloading)\<lparr>progress := createInitialProgress 1000000\<rparr>"

definition exampleRunning :: DownloadTask where
  "exampleRunning =
     (exampleTask Downloading)
       \<lparr>progress := \<lparr>percentage = 25 / 2, downloadedBytes = 125000, totalBytes = 1000000,
                      speed = 1250000, estimatedTimeRemaining = 1\<rparr>\<rparr>"

definition exampleTimer :: Timer where
  "exampleTimer = \<lparr>timer_taskId = ''dl_1'', baseSpeed = 1250000\<rparr>"

definition exampleStart :: "Operation list" where
  "exampleStart = [Start exampleVideo exampleQuality ''dl_1'' 10 (1 / 2)]"

definition exampleOperations :: "Operation list" where
  "exampleOperations =
     [Start exampleVideo exampleQuality ''dl_1'' 10 (1 / 2), Tick 0 (1 / 2) 11]"

definition unavailableQuality :: QualityOption where
  "unavailableQuality =
     exampleQuality\<lparr>quality := Q4k, fileSize := 0, available := False, recommended := False\<rparr>"

definition zeroSizeQuality :: QualityOption where
  "zeroSizeQuality = exampleQuality\<lparr>fileSize := 0\<rparr>"

definition zeroSizeStarted :: Manager where
  "zeroSizeStarted = run [Start exampleVideo zeroSizeQuality ''dl_1'' 10 (1 / 2)]"

definition zeroSizeFresh :: DownloadTask where
  "zeroSizeFresh =
     (exampleTask Downloading)
       \<lparr>task_quality := zeroSizeQuality, progress := createInitialProgress 0\<rparr>"

definition zeroSizeStart :: "Operation list" where
  "zeroSizeStart = [Start exampleVideo zeroSizeQuality ''dl_1'' 10 (1 / 2)]"

definition zeroSizeTicks :: "(nat \<times> real \<times> int) list" where
  "zeroSizeTicks = [(0, 1 / 2, 11), (0, 9 / 10, 12), (0, 0, 13)]"



definition noFaults :: IOFaults where
  "noFaults =
     \<lparr>readdir_fails = False, readFile_fails = (\<lambda>_. False), unlink_fails = (\<lambda>_. False)\<rparr>"

text \<open>
  A run of the tool that has written a partial download when it exits with an error
  (the network fails, or the 300 s timeout kills it).
\<close>

definition partialThenFail :: ExternalTool where
  "partialThenFail dir =
     (ExecFailed ''Command failed: yt-dlp'', dir @ [(''f81d4fae.mp4.part'', ''partial'')])"

definition writesWebm :: ExternalTool where
  "writesWebm dir = (ExecDone ''done'', dir @ [(''f81d4fae.webm'', ''bytes'')])"

section \<open>Properties\<close>

subsection \<open>Progress model\<close>

lemma calculatePercentage_range:
  "0 \<le> calculatePercentage d t \<and> calculatePercentage d t \<le> 100"
  by (simp add: calculatePercentage_def Let_def)

lemma Math_round_mono: "x \<le> y \<Longrightarrow> Math_round x \<le> Math_round y"
  unfolding Math_round_def by (simp add: floor_mono)

lemma calculatePercentage_mono:
  assumes "0 < t" and "d1 \<le> d2"
  shows "calculatePercentage d1 t \<le> calculatePercentage d2 t"
proof -
  from assms have "d1 / t * 100 * 100 \<le> d2 / t * 100 * 100"
    by (simp add: divide_right_mono)
  then have "Math_round (d1 / t * 100 * 100) / 100 \<le> Math_round (d2 / t * 100 * 100) / 100"
    by (simp add: Math_round_mono divide_right_mono)
  with assms(1) show ?thesis
    unfolding calculatePercentage_def Let_def by (simp add: min_def max_def)
qed

lemma min_max_is_spec_clamp: "lo \<le> hi \<Longrightarrow> min hi (max lo x) = spec_clamp x lo hi"
  by (auto simp: spec_clamp_def)

lemma Math_round_is_spec_round: "Math_round (x * 100) / 100 = spec_round x 2"
  by (simp add: Math_round_def spec_round_def round_def)

lemma calculatePercentage_as_spec:
  assumes "0 < t"
  shows "calculatePercentage d t = spec_clamp (spec_round (d / t * 100) 2) 0 100"
proof -
  have "calculatePercentage d t = min 100 (max 0 (Math_round (d / t * 100 * 100) / 100))"
    using assms by (simp add: calculatePercentage_def Let_def)
  also have "\<dots> = min 100 (max 0 (spec_round (d / t * 100) 2))"
    by (simp only: Math_round_is_spec_round)
  also have "\<dots> = spec_clamp (spec_round (d / t * 100) 2) 0 100"
    by (rule min_max_is_spec_clamp) simp
  finally show ?thesis .
qed

text \<open>
  Claim C3. \<open>calculatePercentage downloaded total\<close> is
  \<open>clamp(round(downloaded/total*100, 2), 0, 100)\<close> when \<open>total > 0\<close> and is \<open>0\<close> when
  \<open>total \<le> 0\<close>; for \<open>total > 0\<close> the result lies in \<open>[0, 100]\<close> and does not decrease
  when \<open>downloaded\<close> grows with \<open>total\<close> fixed.
\<close>

theorem calculatePercentage_spec:
  "(0 < t \<longrightarrow> calculatePercentage d t = spec_clamp (spec_round (d / t * 100) 2) 0 100)
   \<and> (t \<le> 0 \<longrightarrow> calculatePercentage d t = 0)
   \<and> (0 < t \<longrightarrow> 0 \<le> calculatePercentage d t \<and> calculatePercentage d t \<le> 100)
   \<and> (0 < t \<and> d \<le> d' \<longrightarrow> calculatePercentage d t \<le> calculatePercentage d' t)"
proof -
  have "t \<le> 0 \<longrightarrow> calculatePercentage d t = 0"
    by (simp add: calculatePercentage_def)
  then show ?thesis
    using calculatePercentage_as_spec [of t d] calculatePercentage_range [of d t]
      calculatePercentage_mono [of t d d']
    by blast
qed

theorem calculatePercentage_spec_witness:
  "(0::real) < 3 \<and> (1::real) \<le> 2 \<and> (0::real) \<le> 0
   \<and> calculatePercentage 1 3 = spec_clamp (spec_round (1 / 3 * 100) 2) 0 100
   \<and> calculatePercentage 1 3 = 3333 / 100
   \<and> calculatePercentage 1 3 \<le> calculatePercentage 2 3
   \<and> calculatePercentage 7 0 = 0"
proof -
  have "calculatePercentage 1 3 = 3333 / 100"
    by (simp add: calculatePercentage_def Math_round_def Let_def)
  then show ?thesis
    using calculatePercentage_spec [of 3 1 2] calculatePercentage_spec [of 0 7 7]
    by simp
qed

text \<open>
  Claim C6. \<open>calculateETA remainingBytes speed\<close> is \<open>ceil(remainingBytes / speed)\<close> when
  both are positive and \<open>0\<close> otherwise; in particular it is \<open>0\<close> for every
  \<open>remainingBytes\<close> whenever \<open>speed \<le> 0\<close>.
\<close>

theorem calculateETA_spec:
  "(0 < spd \<and> 0 < r \<longrightarrow> calculateETA r spd = of_int \<lceil>r / spd\<rceil>)
   \<and> (\<not> (0 < spd \<and> 0 < r) \<longrightarrow> calculateETA r spd = 0)
   \<and> (spd \<le> 0 \<longrightarrow> calculateETA r spd = 0)"
  by (auto simp: calculateETA_def Math_ceil_def)

theorem calculateETA_spec_witness:
  "(0::real) < 4 \<and> (0::real) < 10 \<and> calculateETA 10 4 = 3
   \<and> \<not> ((0::real) < 0 \<and> (0::real) < 10) \<and> calculateETA 10 0 = 0
   \<and> (-2::real) \<le> 0 \<and> calculateETA 10 (-2) = 0"
  using calculateETA_spec [of 4 10] calculateETA_spec [of 0 10] calculateETA_spec [of "-2" 10]
  by simp

subsection \<open>Lifecycle operations\<close>

text \<open>
  Claim C2. \<open>pauseDownload\<close> fails with the not-found error when the id is unknown and
  with the cannot-pause error whenever the task's status is not \<open>downloading\<close> (so
  pausing a completed task always fails); \<open>resumeDownload\<close> fails whenever the status is
  not \<open>paused\<close>, and with the not-found error when the id is unknown. Every failing call
  returns the manager's state as it was.
\<close>

theorem pause_resume_failures:
  "(activeDownloads m taskId = None \<longrightarrow>
      pauseDownload taskId now m = (Inl (Error (''Download task not found: '' @ taskId)), m)
      \<and> resumeDownload taskId r m = (Inl (Error (''Download task not found: '' @ taskId)), m))
   \<and> (\<forall>task. activeDownloads m taskId = Some task \<and> status task \<noteq> Downloading \<longrightarrow>
        pauseDownload taskId now m =
          (Inl (Error (''Cannot pause download with status: '' @ statusString (status task))), m))
   \<and> (\<forall>task. activeDownloads m taskId = Some task \<and> status task = Completed \<longrightarrow>
        pauseDownload taskId now m =
          (Inl (Error ''Cannot pause download with status: completed''), m))
   \<and> (\<forall>task. activeDownloads m taskId = Some task \<and> status task \<noteq> Paused \<longrightarrow>
        resumeDownload taskId r m =
          (Inl (Error (''Cannot resume download with status: '' @ statusString (status task))), m))
   \<and> (\<forall>e m'. pauseDownload taskId now m = (Inl e, m') \<or> resumeDownload taskId r m = (Inl e, m')
        \<longrightarrow> m' = m)"
  by (auto simp: pauseDownload_def resumeDownload_def Let_def split: option.splits if_splits)

theorem pause_resume_failures_witness:
  "activeDownloads (exampleManager Completed) ''dl_1'' = Some (exampleTask Completed)
   \<and> status (exampleTask Completed) \<noteq> Downloading
   \<and> status (exampleTask Completed) \<noteq> Paused
   \<and> pauseDownload ''dl_1'' 20 (exampleManager Completed) =
       (Inl (Error ''Cannot pause download with status: completed''), exampleManager Completed)
   \<and> resumeDownload ''dl_1'' 0 (exampleManager Completed) =
       (Inl (Error ''Cannot resume download with status: completed''), exampleManager Completed)
   \<and> activeDownloads (exampleManager Completed) ''dl_2'' = None
   \<and> pauseDownload ''dl_2'' 20 (exampleManager Completed) =
       (Inl (Error ''Download task not found: dl_2''), exampleManager Completed)
   \<and> resumeDownload ''dl_2'' 0 (exampleManager Completed) =
       (Inl (Error ''Download task not found: dl_2''), exampleManager Completed)"
proof -
  have a: "activeDownloads (exampleManager Completed) ''dl_1'' = Some (exampleTask Completed)"
    by (simp add: exampleManager_def)
  have b: "status (exampleTask Completed) = Completed"
    by (simp add: exampleTask_def)
  have c: "activeDownloads (exampleManager Completed) ''dl_2'' = None"
    by (simp add: exampleManager_def initialManager_def)
  show ?thesis
    using a b c
      pause_resume_failures [of "exampleManager Completed" "''dl_1''" 20 0]
      pause_resume_failures [of "exampleManager Completed" "''dl_2''" 20 0]
    by simp
qed

text \<open>
  Claim C4 says that cancelling an absent id is a no-op that returns without error. The
  source throws instead: on the empty registry \<open>cancelDownload\<close> fails with the
  not-found error.
\<close>

theorem cancel_absent_counterexample:
  "activeDownloads initialManager ''dl_1'' = None
   \<and> cancelDownload ''dl_1'' initialManager =
       (Inl (Error ''Download task not found: dl_1''), initialManager)"
  by (simp add: cancelDownload_def initialManager_def)

text \<open>
  Claim C4, amended. \<open>cancelDownload\<close> of an absent id fails with the not-found error
  and leaves the state unchanged. Cancelling a present id succeeds and removes it, so a
  second cancel of the same id fails: removal is not idempotent.
\<close>

theorem cancelDownload_absent_fails:
  "(activeDownloads m taskId = None \<longrightarrow>
      cancelDownload taskId m = (Inl (Error (''Download task not found: '' @ taskId)), m))
   \<and> (activeDownloads m taskId \<noteq> None \<longrightarrow>
        fst (cancelDownload taskId m) = Inr ()
        \<and> activeDownloads (snd (cancelDownload taskId m)) taskId = None
        \<and> fst (cancelDownload taskId (snd (cancelDownload taskId m))) =
            Inl (Error (''Download task not found: '' @ taskId)))"
  by (auto simp: cancelDownload_def Let_def stopInterval_def clearInterval_def
      split: option.splits)

theorem cancelDownload_absent_fails_witness:
  "activeDownloads (exampleManager Paused) ''dl_7'' = None
   \<and> cancelDownload ''dl_7'' (exampleManager Paused) =
       (Inl (Error ''Download task not found: dl_7''), exampleManager Paused)
   \<and> activeDownloads (exampleManager Paused) ''dl_1'' \<noteq> None
   \<and> fst (cancelDownload ''dl_1'' (exampleManager Paused)) = Inr ()
   \<and> fst (cancelDownload ''dl_1'' (snd (cancelDownload ''dl_1'' (exampleManager Paused)))) =
       Inl (Error ''Download task not found: dl_1'')"
proof -
  have a: "activeDownloads (exampleManager Paused) ''dl_7'' = None"
    by (simp add: exampleManager_def initialManager_def)
  have b: "activeDownloads (exampleManager Paused) ''dl_1'' \<noteq> None"
    by (simp add: exampleManager_def)
  show ?thesis
    using a b cancelDownload_absent_fails [of "exampleManager Paused" "''dl_7''"]
      cancelDownload_absent_fails [of "exampleManager Paused" "''dl_1''"]
    by simp
qed

text \<open>
  Claim C7. For an available quality option \<open>startDownload\<close> succeeds: the task it
  returns is stored in the registry, is \<open>downloading\<close>, and has zeroed progress with
  \<open>totalBytes\<close> the option's file size. For an unavailable option \<open>startDownload\<close>
  throws and creates nothing, and the route answers a request for it with
  \<open>QUALITY_UNAVAILABLE\<close> and creates nothing.
\<close>

theorem startDownload_spec:
  "(available q \<longrightarrow>
      (\<exists>task m'. startDownload vi q taskId now r m = (Inr task, m')
         \<and> activeDownloads m' taskId = Some task
         \<and> task_id task = taskId \<and> videoInfo task = vi \<and> task_quality task = q
         \<and> status task = Downloading
         \<and> percentage (progress task) = 0
         \<and> downloadedBytes (progress task) = 0
         \<and> speed (progress task) = 0
         \<and> estimatedTimeRemaining (progress task) = 0
         \<and> totalBytes (progress task) = fileSize q))
   \<and> (\<not> available q \<longrightarrow>
        startDownload vi q taskId now r m =
          (Inl (Error ''Selected quality is not available for this video''), m)
        \<and> (\<forall>body. req_videoInfo body = Some vi \<and> video_id vi \<noteq> [] \<and> req_quality body = Some q
              \<longrightarrow> POST body taskId now r m = (ErrorResponse None QUALITY_UNAVAILABLE 400, m)))"
  by (auto simp: startDownload_def POST_def Let_def simulateDownloadProgress_def
      createInitialProgress_def)

theorem startDownload_spec_witness:
  "available exampleQuality
   \<and> fst (startDownload exampleVideo exampleQuality ''dl_1'' 10 (1 / 2) initialManager) =
       Inr ((exampleTask Downloading)\<lparr>progress := createInitialProgress 1000000\<rparr>)
   \<and> \<not> available unavailableQuality
   \<and> startDownload exampleVideo unavailableQuality ''dl_1'' 10 (1 / 2) initialManager =
       (Inl (Error ''Selected quality is not available for this video''), initialManager)
   \<and> POST \<lparr>req_videoInfo = Some exampleVideo, req_quality = Some unavailableQuality,
            req_audioMetadata = None\<rparr> ''dl_1'' 10 (1 / 2) initialManager =
       (ErrorResponse None QUALITY_UNAVAILABLE 400, initialManager)"
proof -
  have a: "available exampleQuality" "\<not> available unavailableQuality"
    "video_id exampleVideo \<noteq> []"
    by (simp_all add: exampleQuality_def unavailableQuality_def exampleVideo_def)
  have b: "fileSize exampleQuality = 1000000"
    by (simp add: exampleQuality_def)
  have c: "fst (startDownload exampleVideo exampleQuality ''dl_1'' 10 (1 / 2) initialManager) =
       Inr ((exampleTask Downloading)\<lparr>progress := createInitialProgress 1000000\<rparr>)"
    using a(1) b by (simp add: startDownload_def Let_def exampleTask_def)
  show ?thesis
    using a c
      startDownload_spec [of exampleQuality exampleVideo "''dl_1''" 10 "1 / 2" initialManager]
      startDownload_spec [of unavailableQuality exampleVideo "''dl_1''" 10 "1 / 2" initialManager]
    by simp
qed

subsection \<open>The audio bitrate floor\<close>






subsection \<open>Cleanup of the scratch directory\<close>

lemma unlink_result:
  "\<not> unlink_fails io name \<Longrightarrow>
     (case unlink io name d of None \<Rightarrow> d | Some d' \<Rightarrow> d') = filter (\<lambda>entry. fst entry \<noteq> name) d"
proof (cases "existsSync d name")
  case True
  assume "\<not> unlink_fails io name"
  with True show ?thesis by (simp add: unlink_def)
next
  case False
  then have "filter (\<lambda>entry. fst entry \<noteq> name) d = d"
    by (auto simp: existsSync_def intro!: filter_True)
  with False show ?thesis by (simp add: unlink_def)
qed

lemma cleanup_loop:
  assumes "\<forall>n. \<not> unlink_fails io n"
  shows "foldl (\<lambda>d file.
                   if startsWith baseName file then
                     (case unlink io file d of None \<Rightarrow> d | Some d' \<Rightarrow> d')
                   else d) d files
         = filter (\<lambda>entry. \<not> (startsWith baseName (fst entry) \<and> fst entry \<in> set files)) d"
proof (induction files arbitrary: d)
  case Nil
  show ?case by simp
next
  case (Cons f fs)
  show ?case
  proof (cases "startsWith baseName f")
    case True
    have "(case unlink io f d of None \<Rightarrow> d | Some d' \<Rightarrow> d') = filter (\<lambda>entry. fst entry \<noteq> f) d"
      using assms by (simp add: unlink_result)
    with True show ?thesis
      by (auto simp: Cons.IH intro!: filter_cong)
  next
    case False
    then show ?thesis
      by (auto simp: Cons.IH intro!: filter_cong)
  qed
qed

lemma cleanupTempFiles_removes:
  assumes "\<not> readdir_fails io" and "\<forall>n. \<not> unlink_fails io n"
  shows "tokenFiles token (cleanupTempFiles io token dir) = []"
proof -
  have "cleanupTempFiles io token dir =
          filter (\<lambda>entry. \<not> (startsWith token (fst entry) \<and> fst entry \<in> set (map fst dir))) dir"
    using assms by (simp add: cleanupTempFiles_def readdir_def cleanup_loop)
  then show ?thesis
    by (force simp: tokenFiles_def filter_empty_conv)
qed

lemma readFile_existing:
  "existsSync d n \<Longrightarrow> \<not> readFile_fails io n \<Longrightarrow> readFile io d n \<noteq> None"
  by (simp add: readFile_def existsSync_def map_of_eq_None_iff)

lemma find_existing:
  "find P (map fst d) = Some n \<Longrightarrow> existsSync d n"
  by (auto simp: find_Some_iff existsSync_def)

text \<open>
  When the tool ends without error and no file-system call fails, the endpoint leaves no
  file of the work token behind, whether it serves a file or finds none.
\<close>

lemma GET_cleans_after_tool_success:
  assumes url: "url \<noteq> None" "url \<noteq> Some []"
    and tool: "tool dir = (ExecDone out, dir1)"
    and io: "\<not> readdir_fails io" "\<forall>n. \<not> readFile_fails io n" "\<forall>n. \<not> unlink_fails io n"
  shows "tokenFiles fileId (snd (GET io tool url fmt fileId dir)) = []"
proof -
  have clean: "tokenFiles fileId (cleanupTempFiles io fileId dir1) = []"
    using io(1,3) by (rule cleanupTempFiles_removes)
  have none: "tokenFiles fileId dir1 = []" if "find (startsWith fileId) (map fst dir1) = None"
    using that by (auto simp: tokenFiles_def find_None_iff filter_empty_conv)
  have read: "readFile io dir1 n \<noteq> None" if "existsSync dir1 n" for n
    using that io(2) by (simp add: readFile_existing)
  show ?thesis
  proof (cases "existsSync dir1 (fileId @ ''.'' @
      (if (case fmt of None \<Rightarrow> ''mp4'' | Some f \<Rightarrow> if f = [] then ''mp4'' else f) = ''mp3''
       then ''mp3'' else ''mp4''))")
    case True
    with read obtain buf where "readFile io dir1 (fileId @ ''.'' @
      (if (case fmt of None \<Rightarrow> ''mp4'' | Some f \<Rightarrow> if f = [] then ''mp4'' else f) = ''mp3''
       then ''mp3'' else ''mp4'')) = Some buf"
      by blast
    with True url tool clean show ?thesis
      by (auto simp: GET_def Let_def)
  next
    case False
    show ?thesis
    proof (cases "find (startsWith fileId) (map fst dir1)")
      case None
      with False url tool io(1) none show ?thesis
        by (auto simp: GET_def Let_def readdir_def)
    next
      case (Some matchingFile)
      then have "existsSync dir1 matchingFile"
        by (rule find_existing)
      with read obtain buf where "readFile io dir1 matchingFile = Some buf"
        by blast
      with Some False url tool io(1) clean show ?thesis
        by (auto simp: GET_def Let_def readdir_def)
    qed
  qed
qed

text \<open>
  Claim C1 says that no file of the work token remains after any invocation, also when
  the tool fails. The source cleans up only on the two paths that serve a file: when
  \<^verbatim>\<open>execAsync\<close> rejects, the outer \<^verbatim>\<open>catch\<close> answers 500 and returns without calling
  \<^verbatim>\<open>cleanupTempFiles\<close>. Here the tool leaves a partial file and fails, and the file is
  still in the scratch directory after the endpoint has returned.
\<close>

theorem GET_tool_failure_leaves_files:
  "GET noFaults partialThenFail (Some ''https://youtu.be/abc'') (Some ''mp4'') ''f81d4fae'' [] =
     (JsonError (Some ''Command failed: yt-dlp'') 500, [(''f81d4fae.mp4.part'', ''partial'')])
   \<and> tokenFiles ''f81d4fae''
        (snd (GET noFaults partialThenFail (Some ''https://youtu.be/abc'') (Some ''mp4'')
                ''f81d4fae'' [])) = [''f81d4fae.mp4.part'']"
  by (simp add: GET_def partialThenFail_def tokenFiles_def startsWith_def)

lemma GET_serves_and_cleans_example:
  "GET noFaults writesWebm (Some ''https://youtu.be/abc'') (Some ''mp4'') ''f81d4fae''
       [(''other.mp4'', ''x'')] =
     (FileResponse ''bytes'' ''video/mp4'', [(''other.mp4'', ''x'')])"
  by (simp add: GET_def writesWebm_def noFaults_def existsSync_def readdir_def readFile_def
      startsWith_def cleanupTempFiles_def unlink_def contentType_def Let_def)

subsection \<open>The interval callback\<close>

lemma intervalCallback_idle:
  "timers m h = None \<Longrightarrow> intervalCallback h r now m = m"
  by (simp add: intervalCallback_def)

lemma intervalCallback_stops:
  assumes "timers m h = Some tm"
    and "\<forall>t. activeDownloads m (timer_taskId tm) = Some t \<longrightarrow> status t \<noteq> Downloading"
  shows "intervalCallback h r now m = stopInterval h (timer_taskId tm) m"
  using assms by (simp add: intervalCallback_def Let_def split: option.splits)

lemma intervalCallback_advances:
  assumes "timers m h = Some tm"
    and "activeDownloads m (timer_taskId tm) = Some t"
    and "status t = Downloading"
  shows "activeDownloads (intervalCallback h r now m) =
           (activeDownloads m)(timer_taskId tm \<mapsto> advance tm r now t)"
  using assms
  by (simp add: intervalCallback_def advance_def Let_def stopInterval_def clearInterval_def)

lemma intervalCallback_running:
  assumes "timers m h = Some tm"
    and "activeDownloads m (timer_taskId tm) = Some t"
    and "status t = Downloading"
    and "status (advance tm r now t) \<noteq> Completed"
  shows "timers (intervalCallback h r now m) = timers m"
    and "downloadIntervals (intervalCallback h r now m) = downloadIntervals m"
  using assms
  by (auto simp: intervalCallback_def advance_def Let_def stopInterval_def clearInterval_def
      split: if_splits)

lemma stopInterval_tasks [simp]:
  "activeDownloads (stopInterval h taskId m) = activeDownloads m"
  by (simp add: stopInterval_def clearInterval_def)

lemma intervalCallback_tasks:
  "activeDownloads (intervalCallback h r now m) = activeDownloads m
   \<or> (\<exists>tm t. timers m h = Some tm \<and> activeDownloads m (timer_taskId tm) = Some t
          \<and> status t = Downloading
          \<and> activeDownloads (intervalCallback h r now m) =
              (activeDownloads m)(timer_taskId tm \<mapsto> advance tm r now t))"
proof (cases "timers m h")
  case None
  then show ?thesis by (simp add: intervalCallback_idle)
next
  case (Some tm)
  show ?thesis
  proof (cases "\<exists>t. activeDownloads m (timer_taskId tm) = Some t \<and> status t = Downloading")
    case True
    with Some show ?thesis
      using intervalCallback_advances by blast
  next
    case False
    with Some have "intervalCallback h r now m = stopInterval h (timer_taskId tm) m"
      by (intro intervalCallback_stops) auto
    then show ?thesis by simp
  qed
qed

subsection \<open>One step of progress\<close>

lemma advance_totalBytes [simp]:
  "totalBytes (progress (advance tm r now t)) = totalBytes (progress t)"
  by (simp add: advance_def updateProgress_def Let_def)

lemma advance_downloaded_le:
  "downloadedBytes (progress (advance tm r now t)) \<le> totalBytes (progress t)"
  by (simp add: advance_def updateProgress_def Let_def)

lemma advance_invariant: "taskInvariant (advance tm r now t)"
  using calculatePercentage_range
  by (simp add: taskInvariant_def advance_def updateProgress_def Let_def)

lemma calculatePercentage_full:
  assumes "0 < t" and "t \<le> d"
  shows "calculatePercentage d t = 100"
proof -
  have "calculatePercentage t t = 100"
    using assms(1) by (simp add: calculatePercentage_def Math_round_def Let_def)
  moreover have "calculatePercentage t t \<le> calculatePercentage d t"
    using assms by (rule calculatePercentage_mono)
  moreover have "calculatePercentage d t \<le> 100"
    using calculatePercentage_range by simp
  ultimately show ?thesis by simp
qed

lemma advance_increases:
  assumes "0 < baseSpeed tm" and "0 \<le> r"
    and "downloadedBytes (progress t) < totalBytes (progress t)"
  shows "downloadedBytes (progress t) < downloadedBytes (progress (advance tm r now t))"
proof -
  have "0 < 8 / 10 + r * (4 / 10)"
    using assms(2) by (simp add: add_pos_nonneg)
  with assms(1) have "0 < baseSpeed tm * (8 / 10 + r * (4 / 10)) * (1 / 10)"
    by simp
  with assms(3) show ?thesis
    by (simp add: advance_def updateProgress_def Let_def min_def)
qed

lemma advance_unfinished:
  assumes "status t \<noteq> Completed" and "status (advance tm r now t) \<noteq> Completed"
    and "0 < totalBytes (progress t)"
  shows "downloadedBytes (progress (advance tm r now t)) < totalBytes (progress t)"
proof (rule ccontr)
  let ?d = "min (downloadedBytes (progress t) + baseSpeed tm * (8 / 10 + r * (4 / 10)) * (1 / 10))
                (totalBytes (progress t))"
  assume contra: "\<not> ?thesis"
  have notdone: "\<not> 100 \<le> calculatePercentage ?d (totalBytes (progress t))"
    using assms(2) by (auto simp: advance_def updateProgress_def Let_def split: if_splits)
  then have "downloadedBytes (progress (advance tm r now t)) = ?d"
    by (simp add: advance_def updateProgress_def Let_def)
  with contra have "totalBytes (progress t) \<le> ?d" by simp
  with assms(3) have "calculatePercentage ?d (totalBytes (progress t)) = 100"
    by (rule calculatePercentage_full)
  with notdone show False by simp
qed

lemma advance_zero_size:
  assumes "totalBytes (progress t) = 0"
  shows "status (advance tm r now t) = status t"
    and "percentage (progress (advance tm r now t)) = 0"
  using assms by (simp_all add: advance_def updateProgress_def calculatePercentage_def Let_def)

subsection \<open>The data-model invariants\<close>

lemma simulateDownloadProgress_tasks [simp]:
  "activeDownloads (simulateDownloadProgress taskId r m) = activeDownloads m"
  by (simp add: simulateDownloadProgress_def Let_def split: option.splits)

lemma registryInvariant_update:
  "registryInvariant m \<Longrightarrow> taskInvariant t \<Longrightarrow> activeDownloads m' = (activeDownloads m)(k \<mapsto> t)
     \<Longrightarrow> registryInvariant m'"
  by (simp add: registryInvariant_def)

lemma registryInvariant_same:
  "registryInvariant m \<Longrightarrow> activeDownloads m' = activeDownloads m \<Longrightarrow> registryInvariant m'"
  by (simp add: registryInvariant_def)

lemma registryInvariant_remove:
  "registryInvariant m \<Longrightarrow> activeDownloads m' = (activeDownloads m)(k := None)
     \<Longrightarrow> registryInvariant m'"
  by (simp add: registryInvariant_def)

lemma startDownload_tasks:
  assumes "startDownload vi q taskId now r m = (res, m')"
  shows "activeDownloads m' = activeDownloads m
   \<or> (\<exists>t. res = Inr t \<and> activeDownloads m' = (activeDownloads m)(taskId \<mapsto> t)
          \<and> status t = Downloading
          \<and> percentage (progress t) = 0 \<and> downloadedBytes (progress t) = 0)"
  using assms
  by (auto simp: startDownload_def createInitialProgress_def Let_def split: if_splits)

lemma startMP3Download_tasks:
  assumes "startMP3Download vi md taskId now r m = (res, m')"
  shows "activeDownloads m' = activeDownloads m
   \<or> (\<exists>t. res = Inr t \<and> activeDownloads m' = (activeDownloads m)(taskId \<mapsto> t)
          \<and> status t = Downloading
          \<and> percentage (progress t) = 0 \<and> downloadedBytes (progress t) = 0)"
  using assms
  by (auto simp: startMP3Download_def startDownload_def createInitialProgress_def Let_def
      split: option.splits if_splits)

lemma pauseDownload_tasks:
  "activeDownloads (snd (pauseDownload taskId now m)) = activeDownloads m
   \<or> (\<exists>t. activeDownloads m taskId = Some t \<and> status t = Downloading
          \<and> activeDownloads (snd (pauseDownload taskId now m)) =
              (activeDownloads m)(taskId \<mapsto>
                 t\<lparr>status := Paused, pausedAt := Some now,
                   progress := (progress t)\<lparr>speed := 0\<rparr>\<rparr>))"
  by (auto simp: pauseDownload_def Let_def split: option.splits)

lemma resumeDownload_tasks:
  "activeDownloads (snd (resumeDownload taskId r m)) = activeDownloads m
   \<or> (\<exists>t. activeDownloads m taskId = Some t \<and> status t = Paused
          \<and> activeDownloads (snd (resumeDownload taskId r m)) =
              (activeDownloads m)(taskId \<mapsto> t\<lparr>status := Downloading, pausedAt := None\<rparr>))"
  by (auto simp: resumeDownload_def Let_def split: option.splits)

lemma cancelDownload_tasks:
  "activeDownloads (snd (cancelDownload taskId m)) = activeDownloads m
   \<or> activeDownloads (snd (cancelDownload taskId m)) = (activeDownloads m)(taskId := None)"
  by (auto simp: cancelDownload_def Let_def split: option.splits)

lemma initial_taskInvariant:
  "percentage (progress t) = 0 \<Longrightarrow> downloadedBytes (progress t) = 0 \<Longrightarrow> taskInvariant t"
  by (simp add: taskInvariant_def)

lemma step_registryInvariant:
  assumes "registryInvariant m"
  shows "registryInvariant (step m op)"
proof (cases op)
  case (Start vi q taskId now r)
  obtain res m' where "startDownload vi q taskId now r m = (res, m')"
    by (cases "startDownload vi q taskId now r m")
  with Start show ?thesis
    using assms startDownload_tasks [of vi q taskId now r m res m']
    by (auto intro: registryInvariant_same registryInvariant_update initial_taskInvariant)
next
  case (StartMP3 vi md taskId now r)
  obtain res m' where "startMP3Download vi md taskId now r m = (res, m')"
    by (cases "startMP3Download vi md taskId now r m")
  with StartMP3 show ?thesis
    using assms startMP3Download_tasks [of vi md taskId now r m res m']
    by (auto intro: registryInvariant_same registryInvariant_update initial_taskInvariant)
next
  case (Tick h r now)
  then show ?thesis
    using assms intervalCallback_tasks [of h r now m]
    by (auto intro: registryInvariant_same registryInvariant_update advance_invariant)
next
  case (Pause taskId now)
  show ?thesis
    using pauseDownload_tasks [of taskId now m]
  proof
    assume "activeDownloads (snd (pauseDownload taskId now m)) = activeDownloads m"
    with assms Pause show ?thesis
      by (auto intro: registryInvariant_same)
  next
    assume "\<exists>t. activeDownloads m taskId = Some t \<and> status t = Downloading
          \<and> activeDownloads (snd (pauseDownload taskId now m)) =
              (activeDownloads m)(taskId \<mapsto>
                 t\<lparr>status := Paused, pausedAt := Some now,
                   progress := (progress t)\<lparr>speed := 0\<rparr>\<rparr>)"
    then obtain t where t: "activeDownloads m taskId = Some t"
      and upd: "activeDownloads (snd (pauseDownload taskId now m)) =
              (activeDownloads m)(taskId \<mapsto>
                 t\<lparr>status := Paused, pausedAt := Some now,
                   progress := (progress t)\<lparr>speed := 0\<rparr>\<rparr>)"
      by blast
    from assms t have "taskInvariant t"
      by (simp add: registryInvariant_def)
    then have "taskInvariant (t\<lparr>status := Paused, pausedAt := Some now,
                   progress := (progress t)\<lparr>speed := 0\<rparr>\<rparr>)"
      by (simp add: taskInvariant_def)
    with assms upd Pause show ?thesis
      by (auto intro: registryInvariant_update)
  qed
next
  case (Resume taskId r)
  show ?thesis
    using resumeDownload_tasks [of taskId r m]
  proof
    assume "activeDownloads (snd (resumeDownload taskId r m)) = activeDownloads m"
    with assms Resume show ?thesis
      by (auto intro: registryInvariant_same)
  next
    assume "\<exists>t. activeDownloads m taskId = Some t \<and> status t = Paused
          \<and> activeDownloads (snd (resumeDownload taskId r m)) =
              (activeDownloads m)(taskId \<mapsto> t\<lparr>status := Downloading, pausedAt := None\<rparr>)"
    then obtain t where t: "activeDownloads m taskId = Some t"
      and upd: "activeDownloads (snd (resumeDownload taskId r m)) =
              (activeDownloads m)(taskId \<mapsto> t\<lparr>status := Downloading, pausedAt := None\<rparr>)"
      by blast
    from assms t have "taskInvariant t"
      by (simp add: registryInvariant_def)
    then have "taskInvariant (t\<lparr>status := Downloading, pausedAt := None\<rparr>)"
      by (simp add: taskInvariant_def)
    with assms upd Resume show ?thesis
      by (auto intro: registryInvariant_update)
  qed
next
  case (Cancel taskId)
  then show ?thesis
    using assms cancelDownload_tasks [of taskId m]
    by (auto intro: registryInvariant_same registryInvariant_remove)
qed

lemma run_snoc: "run (ops @ [op]) = step (run ops) op"
  by (simp add: run_def)

lemma run_registryInvariant: "registryInvariant (run ops)"
proof (induction ops rule: rev_induct)
  case Nil
  show ?case by (simp add: run_def registryInvariant_def initialManager_def)
next
  case (snoc op ops)
  then show ?case by (simp add: run_snoc step_registryInvariant)
qed

text \<open>
  Claim C9. In every state reached from the empty registry by a sequence of
  \<open>startDownload\<close>, \<open>startMP3Download\<close>, progress ticks, \<open>pauseDownload\<close>,
  \<open>resumeDownload\<close> and \<open>cancelDownload\<close>, every task of the registry has its percentage in
  \<open>[0, 100]\<close> and, when \<open>totalBytes\<close> is positive, \<open>downloadedBytes \<le> totalBytes\<close>. The
  state after each operation is itself such a state, so the invariants hold after every
  operation.
\<close>

theorem reachable_tasks_invariant:
  "activeDownloads (run ops) taskId = Some task \<longrightarrow>
     0 \<le> percentage (progress task) \<and> percentage (progress task) \<le> 100
     \<and> (0 < totalBytes (progress task) \<longrightarrow>
          downloadedBytes (progress task) \<le> totalBytes (progress task))"
  using run_registryInvariant [of ops]
  by (auto simp: registryInvariant_def taskInvariant_def)

lemma exampleOperations_run:
  "activeDownloads (run exampleOperations) ''dl_1'' = Some exampleRunning"
  by (simp add: exampleOperations_def run_def initialManager_def startDownload_def
      simulateDownloadProgress_def intervalCallback_def updateProgress_def
      calculatePercentage_def calculateETA_def Math_round_def Math_ceil_def
      createInitialProgress_def exampleRunning_def exampleTask_def exampleQuality_def Let_def)

theorem reachable_tasks_invariant_witness:
  "activeDownloads (run exampleOperations) ''dl_1'' = Some exampleRunning
   \<and> 0 \<le> percentage (progress exampleRunning) \<and> percentage (progress exampleRunning) \<le> 100
   \<and> 0 < totalBytes (progress exampleRunning)
   \<and> downloadedBytes (progress exampleRunning) \<le> totalBytes (progress exampleRunning)"
proof -
  have "0 < totalBytes (progress exampleRunning)"
    by (simp add: exampleRunning_def)
  then show ?thesis
    using exampleOperations_run
      reachable_tasks_invariant [of exampleOperations "''dl_1''" exampleRunning]
    by simp
qed

subsection \<open>Running tasks have bytes left, and timers a positive speed\<close>

lemma simulateDownloadProgress_timers:
  assumes "timers (simulateDownloadProgress taskId r m) h = Some tm"
  shows "timers m h = Some tm \<or> baseSpeed tm = 500000 + r * 1500000"
  using assms
  by (auto simp: simulateDownloadProgress_def Let_def split: option.splits if_splits)

lemma stopInterval_timers:
  "timers (stopInterval h' taskId m) h = Some tm \<Longrightarrow> timers m h = Some tm"
  by (auto simp: stopInterval_def clearInterval_def split: if_splits)

lemma intervalCallback_timers:
  "timers (intervalCallback h' r now m) h = Some tm \<Longrightarrow> timers m h = Some tm"
  by (auto simp: intervalCallback_def Let_def stopInterval_def clearInterval_def
      split: option.splits if_splits)

lemma pauseDownload_timers:
  "timers (snd (pauseDownload taskId now m)) h = Some tm \<Longrightarrow> timers m h = Some tm"
  by (auto simp: pauseDownload_def Let_def stopInterval_def clearInterval_def
      split: option.splits if_splits)

lemma cancelDownload_timers:
  "timers (snd (cancelDownload taskId m)) h = Some tm \<Longrightarrow> timers m h = Some tm"
  by (auto simp: cancelDownload_def Let_def stopInterval_def clearInterval_def
      split: option.splits if_splits)

lemma startDownload_timers:
  assumes "timers (snd (startDownload vi q taskId now r m)) h = Some tm"
  shows "timers m h = Some tm \<or> baseSpeed tm = 500000 + r * 1500000"
  using assms
  by (auto simp: startDownload_def Let_def dest!: simulateDownloadProgress_timers
      split: if_splits)

lemma startMP3Download_timers:
  assumes "timers (snd (startMP3Download vi md taskId now r m)) h = Some tm"
  shows "timers m h = Some tm \<or> baseSpeed tm = 500000 + r * 1500000"
  using assms
  by (auto simp: startMP3Download_def startDownload_def Let_def
      dest!: simulateDownloadProgress_timers split: option.splits if_splits)

lemma resumeDownload_timers:
  assumes "timers (snd (resumeDownload taskId r m)) h = Some tm"
  shows "timers m h = Some tm \<or> baseSpeed tm = 500000 + r * 1500000"
  using assms
  by (auto simp: resumeDownload_def Let_def dest!: simulateDownloadProgress_timers
      split: option.splits if_splits)

lemma drawn_speed_positive: "0 \<le> r \<Longrightarrow> (0::real) < 500000 + r * 1500000"
  by (simp add: add_pos_nonneg)

lemma step_timersInvariant:
  assumes "timersInvariant m" and "validOperation op"
  shows "timersInvariant (step m op)"
  unfolding timersInvariant_def
proof (intro allI impI)
  fix h tm
  assume live: "timers (step m op) h = Some tm"
  have old: "0 < baseSpeed tm" if "timers m h = Some tm"
    using assms(1) that by (simp add: timersInvariant_def)
  show "0 < baseSpeed tm"
  proof (cases op)
    case (Start vi q taskId now r)
    with live assms(2) old startDownload_timers [of vi q taskId now r m h tm]
    show ?thesis by (auto simp: drawn_speed_positive)
  next
    case (StartMP3 vi md taskId now r)
    with live assms(2) old startMP3Download_timers [of vi md taskId now r m h tm]
    show ?thesis by (auto simp: drawn_speed_positive)
  next
    case (Tick h' r now)
    with live old intervalCallback_timers [of h' r now m h tm]
    show ?thesis by simp
  next
    case (Pause taskId now)
    with live old pauseDownload_timers [of taskId now m h tm]
    show ?thesis by simp
  next
    case (Resume taskId r)
    with live assms(2) old resumeDownload_timers [of taskId r m h tm]
    show ?thesis by (auto simp: drawn_speed_positive)
  next
    case (Cancel taskId)
    with live old cancelDownload_timers [of taskId m h tm]
    show ?thesis by simp
  qed
qed

lemma run_timersInvariant:
  "\<forall>op\<in>set ops. validOperation op \<Longrightarrow> timersInvariant (run ops)"
proof (induction ops rule: rev_induct)
  case Nil
  show ?case by (simp add: run_def timersInvariant_def initialManager_def)
next
  case (snoc op ops)
  then show ?case by (simp add: run_snoc step_timersInvariant)
qed

lemma unfinishedInvariant_update:
  assumes "unfinishedInvariant m"
    and "activeDownloads m' = (activeDownloads m)(k \<mapsto> t)"
    and "status t \<noteq> Completed \<Longrightarrow> 0 < totalBytes (progress t)
           \<Longrightarrow> downloadedBytes (progress t) < totalBytes (progress t)"
  shows "unfinishedInvariant m'"
  using assms by (auto simp: unfinishedInvariant_def)

lemma unfinishedInvariant_same:
  "unfinishedInvariant m \<Longrightarrow> activeDownloads m' = activeDownloads m \<Longrightarrow> unfinishedInvariant m'"
  by (simp add: unfinishedInvariant_def)

lemma unfinishedInvariant_remove:
  "unfinishedInvariant m \<Longrightarrow> activeDownloads m' = (activeDownloads m)(k := None)
     \<Longrightarrow> unfinishedInvariant m'"
  by (auto simp: unfinishedInvariant_def)

lemma unfinishedInvariant_task:
  "unfinishedInvariant m \<Longrightarrow> activeDownloads m k = Some t \<Longrightarrow> status t \<noteq> Completed
     \<Longrightarrow> 0 < totalBytes (progress t) \<Longrightarrow> downloadedBytes (progress t) < totalBytes (progress t)"
  by (simp add: unfinishedInvariant_def)

lemma step_unfinishedInvariant:
  assumes "unfinishedInvariant m"
  shows "unfinishedInvariant (step m op)"
proof (cases op)
  case (Start vi q taskId now r)
  obtain res m' where "startDownload vi q taskId now r m = (res, m')"
    by (cases "startDownload vi q taskId now r m")
  with Start show ?thesis
    using assms startDownload_tasks [of vi q taskId now r m res m']
    by (auto intro: unfinishedInvariant_same unfinishedInvariant_update)
next
  case (StartMP3 vi md taskId now r)
  obtain res m' where "startMP3Download vi md taskId now r m = (res, m')"
    by (cases "startMP3Download vi md taskId now r m")
  with StartMP3 show ?thesis
    using assms startMP3Download_tasks [of vi md taskId now r m res m']
    by (auto intro: unfinishedInvariant_same unfinishedInvariant_update)
next
  case (Tick h r now)
  show ?thesis
    using intervalCallback_tasks [of h r now m]
  proof (elim disjE exE conjE)
    assume "activeDownloads (intervalCallback h r now m) = activeDownloads m"
    with assms Tick show ?thesis
      by (auto intro: unfinishedInvariant_same)
  next
    fix tm t
    assume t: "activeDownloads m (timer_taskId tm) = Some t" "status t = Downloading"
      and upd: "activeDownloads (intervalCallback h r now m) =
              (activeDownloads m)(timer_taskId tm \<mapsto> advance tm r now t)"
    have "downloadedBytes (progress (advance tm r now t))
            < totalBytes (progress (advance tm r now t))"
      if "status (advance tm r now t) \<noteq> Completed"
        "0 < totalBytes (progress (advance tm r now t))"
      using advance_unfinished [of t tm r now] t(2) that by simp
    with assms upd have "unfinishedInvariant (intervalCallback h r now m)"
      by (rule unfinishedInvariant_update)
    with Tick show ?thesis by simp
  qed
next
  case (Pause taskId now)
  show ?thesis
    using pauseDownload_tasks [of taskId now m]
  proof (elim disjE exE conjE)
    assume "activeDownloads (snd (pauseDownload taskId now m)) = activeDownloads m"
    with assms Pause show ?thesis
      by (auto intro: unfinishedInvariant_same)
  next
    fix t
    assume t: "activeDownloads m taskId = Some t" "status t = Downloading"
      and upd: "activeDownloads (snd (pauseDownload taskId now m)) =
              (activeDownloads m)(taskId \<mapsto>
                 t\<lparr>status := Paused, pausedAt := Some now,
                   progress := (progress t)\<lparr>speed := 0\<rparr>\<rparr>)"
    have "unfinishedInvariant (snd (pauseDownload taskId now m))"
      using assms upd
    proof (rule unfinishedInvariant_update)
      assume "0 < totalBytes (progress (t\<lparr>status := Paused, pausedAt := Some now,
                   progress := (progress t)\<lparr>speed := 0\<rparr>\<rparr>))"
      then show "downloadedBytes (progress (t\<lparr>status := Paused, pausedAt := Some now,
                   progress := (progress t)\<lparr>speed := 0\<rparr>\<rparr>))
          < totalBytes (progress (t\<lparr>status := Paused, pausedAt := Some now,
                   progress := (progress t)\<lparr>speed := 0\<rparr>\<rparr>))"
        using unfinishedInvariant_task [OF assms t(1)] t(2) by simp
    qed
    with Pause show ?thesis by simp
  qed
next
  case (Resume taskId r)
  show ?thesis
    using resumeDownload_tasks [of taskId r m]
  proof (elim disjE exE conjE)
    assume "activeDownloads (snd (resumeDownload taskId r m)) = activeDownloads m"
    with assms Resume show ?thesis
      by (auto intro: unfinishedInvariant_same)
  next
    fix t
    assume t: "activeDownloads m taskId = Some t" "status t = Paused"
      and upd: "activeDownloads (snd (resumeDownload taskId r m)) =
              (activeDownloads m)(taskId \<mapsto> t\<lparr>status := Downloading, pausedAt := None\<rparr>)"
    have "unfinishedInvariant (snd (resumeDownload taskId r m))"
      using assms upd
    proof (rule unfinishedInvariant_update)
      assume "0 < totalBytes (progress (t\<lparr>status := Downloading, pausedAt := None\<rparr>))"
      then show "downloadedBytes (progress (t\<lparr>status := Downloading, pausedAt := None\<rparr>))
          < totalBytes (progress (t\<lparr>status := Downloading, pausedAt := None\<rparr>))"
        using unfinishedInvariant_task [OF assms t(1)] t(2) by simp
    qed
    with Resume show ?thesis by simp
  qed
next
  case (Cancel taskId)
  then show ?thesis
    using assms cancelDownload_tasks [of taskId m]
    by (auto intro: unfinishedInvariant_same unfinishedInvariant_remove)
qed

lemma run_unfinishedInvariant: "unfinishedInvariant (run ops)"
proof (induction ops rule: rev_induct)
  case Nil
  show ?case by (simp add: run_def unfinishedInvariant_def initialManager_def)
next
  case (snoc op ops)
  then show ?case by (simp add: run_snoc step_unfinishedInvariant)
qed

lemma intervalCallback_other_task:
  assumes "activeDownloads m taskId = Some task" and "status task \<noteq> Downloading"
  shows "activeDownloads (intervalCallback h r now m) taskId = Some task"
  using intervalCallback_tasks [of h r now m] assms by auto

lemma pauseDownload_running:
  assumes "activeDownloads m taskId = Some task" and "status task = Downloading"
  shows "fst (pauseDownload taskId now m) = Inr ()"
    and "activeDownloads (snd (pauseDownload taskId now m)) taskId =
           Some (task\<lparr>status := Paused, pausedAt := Some now,
                      progress := (progress task)\<lparr>speed := 0\<rparr>\<rparr>)"
    and "downloadIntervals (snd (pauseDownload taskId now m)) taskId = None"
  using assms
  by (auto simp: pauseDownload_def Let_def stopInterval_def clearInterval_def
      split: option.splits)

lemma zeroSizeInvariant_update:
  assumes "zeroSizeInvariant m"
    and "activeDownloads m' = (activeDownloads m)(k \<mapsto> t)"
    and "status t \<noteq> Completed \<Longrightarrow> totalBytes (progress t) = 0
           \<Longrightarrow> downloadedBytes (progress t) = 0"
  shows "zeroSizeInvariant m'"
  using assms by (auto simp: zeroSizeInvariant_def)

lemma zeroSizeInvariant_same:
  "zeroSizeInvariant m \<Longrightarrow> activeDownloads m' = activeDownloads m \<Longrightarrow> zeroSizeInvariant m'"
  by (simp add: zeroSizeInvariant_def)

lemma zeroSizeInvariant_remove:
  "zeroSizeInvariant m \<Longrightarrow> activeDownloads m' = (activeDownloads m)(k := None)
     \<Longrightarrow> zeroSizeInvariant m'"
  by (auto simp: zeroSizeInvariant_def)

lemma zeroSizeInvariant_task:
  "zeroSizeInvariant m \<Longrightarrow> activeDownloads m k = Some t \<Longrightarrow> status t \<noteq> Completed
     \<Longrightarrow> totalBytes (progress t) = 0 \<Longrightarrow> downloadedBytes (progress t) = 0"
  by (simp add: zeroSizeInvariant_def)

lemma advance_zero_bytes:
  assumes "totalBytes (progress t) = 0" and "downloadedBytes (progress t) = 0"
    and "0 < baseSpeed tm" and "0 \<le> r"
  shows "downloadedBytes (progress (advance tm r now t)) = 0"
proof -
  have "0 < 8 / 10 + r * (4 / 10)"
    using assms(4) by (simp add: add_pos_nonneg)
  with assms(3) have "0 < baseSpeed tm * (8 / 10 + r * (4 / 10)) * (1 / 10)"
    by simp
  with assms(1,2) show ?thesis
    by (simp add: advance_def updateProgress_def calculatePercentage_def Let_def min_def)
qed

lemma step_zeroSizeInvariant:
  assumes "zeroSizeInvariant m" and "timersInvariant m" and "validOperation op"
  shows "zeroSizeInvariant (step m op)"
proof (cases op)
  case (Start vi q taskId now r)
  obtain res m' where "startDownload vi q taskId now r m = (res, m')"
    by (cases "startDownload vi q taskId now r m")
  with Start show ?thesis
    using assms(1) startDownload_tasks [of vi q taskId now r m res m']
    by (auto intro: zeroSizeInvariant_same zeroSizeInvariant_update)
next
  case (StartMP3 vi md taskId now r)
  obtain res m' where "startMP3Download vi md taskId now r m = (res, m')"
    by (cases "startMP3Download vi md taskId now r m")
  with StartMP3 show ?thesis
    using assms(1) startMP3Download_tasks [of vi md taskId now r m res m']
    by (auto intro: zeroSizeInvariant_same zeroSizeInvariant_update)
next
  case (Tick h r now)
  show ?thesis
    using intervalCallback_tasks [of h r now m]
  proof (elim disjE exE conjE)
    assume "activeDownloads (intervalCallback h r now m) = activeDownloads m"
    with assms(1) Tick show ?thesis
      by (auto intro: zeroSizeInvariant_same)
  next
    fix tm t
    assume tm: "timers m h = Some tm"
      and t: "activeDownloads m (timer_taskId tm) = Some t" "status t = Downloading"
      and upd: "activeDownloads (intervalCallback h r now m) =
              (activeDownloads m)(timer_taskId tm \<mapsto> advance tm r now t)"
    have speed: "0 < baseSpeed tm"
      using assms(2) tm by (simp add: timersInvariant_def)
    have "downloadedBytes (progress (advance tm r now t)) = 0"
      if "totalBytes (progress (advance tm r now t)) = 0"
    proof -
      from that have z: "totalBytes (progress t) = 0" by simp
      with assms(1) t have "downloadedBytes (progress t) = 0"
        by (auto dest: zeroSizeInvariant_task)
      with z speed assms(3) Tick show ?thesis
        by (simp add: advance_zero_bytes)
    qed
    with assms(1) upd have "zeroSizeInvariant (intervalCallback h r now m)"
      by (rule zeroSizeInvariant_update)
    with Tick show ?thesis by simp
  qed
next
  case (Pause taskId now)
  show ?thesis
    using pauseDownload_tasks [of taskId now m]
  proof (elim disjE exE conjE)
    assume "activeDownloads (snd (pauseDownload taskId now m)) = activeDownloads m"
    with assms(1) Pause show ?thesis
      by (auto intro: zeroSizeInvariant_same)
  next
    fix t
    assume t: "activeDownloads m taskId = Some t" "status t = Downloading"
      and upd: "activeDownloads (snd (pauseDownload taskId now m)) =
              (activeDownloads m)(taskId \<mapsto>
                 t\<lparr>status := Paused, pausedAt := Some now,
                   progress := (progress t)\<lparr>speed := 0\<rparr>\<rparr>)"
    have "zeroSizeInvariant (snd (pauseDownload taskId now m))"
      using assms(1) upd
    proof (rule zeroSizeInvariant_update)
      assume "totalBytes (progress (t\<lparr>status := Paused, pausedAt := Some now,
                   progress := (progress t)\<lparr>speed := 0\<rparr>\<rparr>)) = 0"
      then show "downloadedBytes (progress (t\<lparr>status := Paused, pausedAt := Some now,
                   progress := (progress t)\<lparr>speed := 0\<rparr>\<rparr>)) = 0"
        using zeroSizeInvariant_task [OF assms(1) t(1)] t(2) by simp
    qed
    with Pause show ?thesis by simp
  qed
next
  case (Resume taskId r)
  show ?thesis
    using resumeDownload_tasks [of taskId r m]
  proof (elim disjE exE conjE)
    assume "activeDownloads (snd (resumeDownload taskId r m)) = activeDownloads m"
    with assms(1) Resume show ?thesis
      by (auto intro: zeroSizeInvariant_same)
  next
    fix t
    assume t: "activeDownloads m taskId = Some t" "status t = Paused"
      and upd: "activeDownloads (snd (resumeDownload taskId r m)) =
              (activeDownloads m)(taskId \<mapsto> t\<lparr>status := Downloading, pausedAt := None\<rparr>)"
    have "zeroSizeInvariant (snd (resumeDownload taskId r m))"
      using assms(1) upd
    proof (rule zeroSizeInvariant_update)
      assume "totalBytes (progress (t\<lparr>status := Downloading, pausedAt := None\<rparr>)) = 0"
      then show "downloadedBytes (progress (t\<lparr>status := Downloading, pausedAt := None\<rparr>)) = 0"
        using zeroSizeInvariant_task [OF assms(1) t(1)] t(2) by simp
    qed
    with Resume show ?thesis by simp
  qed
next
  case (Cancel taskId)
  then show ?thesis
    using assms(1) cancelDownload_tasks [of taskId m]
    by (auto intro: zeroSizeInvariant_same zeroSizeInvariant_remove)
qed

lemma run_zeroSizeInvariant:
  "\<forall>op\<in>set ops. validOperation op \<Longrightarrow> zeroSizeInvariant (run ops)"
proof (induction ops rule: rev_induct)
  case Nil
  show ?case by (simp add: run_def zeroSizeInvariant_def initialManager_def)
next
  case (snoc op ops)
  then show ?case
    by (simp add: run_snoc step_zeroSizeInvariant run_timersInvariant)
qed

subsection \<open>Progress ticks and pausing\<close>

text \<open>
  Claim C8 says that each tick taken while the task is \<open>downloading\<close> strictly increases
  \<open>downloadedBytes\<close>. A task started for an available option of file size \<open>0\<close> is
  \<open>downloading\<close> with \<open>0\<close> bytes; the tick of its own timer leaves it \<open>downloading\<close>
  with \<open>0\<close> bytes.
\<close>

theorem tick_zero_size_counterexample:
  "statusOf zeroSizeStarted ''dl_1'' = Some Downloading
   \<and> downloadedOf zeroSizeStarted ''dl_1'' = Some 0
   \<and> downloadIntervals zeroSizeStarted ''dl_1'' = Some 0
   \<and> statusOf (intervalCallback 0 (1 / 2) 11 zeroSizeStarted) ''dl_1'' = Some Downloading
   \<and> downloadedOf (intervalCallback 0 (1 / 2) 11 zeroSizeStarted) ''dl_1'' = Some 0"
  by (simp add: zeroSizeStarted_def run_def initialManager_def startDownload_def
      simulateDownloadProgress_def intervalCallback_def updateProgress_def
      calculatePercentage_def calculateETA_def createInitialProgress_def
      zeroSizeQuality_def exampleQuality_def statusOf_def downloadedOf_def Let_def)

text \<open>
  Claim C8, amended. In a state reached by operations whose random draws lie in
  \<open>[0, 1)\<close>, a tick of its timer taken while a task is \<open>downloading\<close> strictly
  increases \<open>downloadedBytes\<close> and keeps it at most \<open>totalBytes\<close> when the task's
  \<open>totalBytes\<close> is positive, and leaves a task whose \<open>totalBytes\<close> is \<open>0\<close>
  \<open>downloading\<close> at \<open>0\<close> bytes. In any state, no tick changes a task that is
  \<open>paused\<close>. Pausing a \<open>downloading\<close> task succeeds, sets its speed to \<open>0\<close>,
  keeps its downloaded bytes and unbinds its timer.
\<close>

theorem tick_and_pause_progress:
  "((\<forall>op\<in>set ops. validOperation op) \<and> 0 \<le> r \<and> r < 1
      \<and> timers (run ops) h = Some tm
      \<and> activeDownloads (run ops) (timer_taskId tm) = Some task
      \<and> status task = Downloading \<and> 0 < totalBytes (progress task) \<longrightarrow>
      (\<exists>task'. activeDownloads (intervalCallback h r now (run ops)) (timer_taskId tm) = Some task'
         \<and> downloadedBytes (progress task) < downloadedBytes (progress task')
         \<and> downloadedBytes (progress task') \<le> totalBytes (progress task')
         \<and> totalBytes (progress task') = totalBytes (progress task)))
   \<and> ((\<forall>op\<in>set ops. validOperation op) \<and> 0 \<le> r \<and> r < 1
      \<and> timers (run ops) h = Some tm
      \<and> activeDownloads (run ops) (timer_taskId tm) = Some task
      \<and> status task = Downloading \<and> totalBytes (progress task) = 0 \<longrightarrow>
      downloadedBytes (progress task) = 0
      \<and> downloadedOf (intervalCallback h r now (run ops)) (timer_taskId tm) = Some 0
      \<and> statusOf (intervalCallback h r now (run ops)) (timer_taskId tm) = Some Downloading)
   \<and> (activeDownloads m taskId = Some task \<and> status task = Paused \<longrightarrow>
        activeDownloads (intervalCallback h r now m) taskId = Some task)
   \<and> (activeDownloads m taskId = Some task \<and> status task = Downloading \<longrightarrow>
        fst (pauseDownload taskId now m) = Inr ()
        \<and> activeDownloads (snd (pauseDownload taskId now m)) taskId =
            Some (task\<lparr>status := Paused, pausedAt := Some now,
                       progress := (progress task)\<lparr>speed := 0\<rparr>\<rparr>)
        \<and> downloadedOf (snd (pauseDownload taskId now m)) taskId =
            Some (downloadedBytes (progress task))
        \<and> downloadIntervals (snd (pauseDownload taskId now m)) taskId = None)"
proof (intro conjI impI)
  assume a: "(\<forall>op\<in>set ops. validOperation op) \<and> 0 \<le> r \<and> r < 1
      \<and> timers (run ops) h = Some tm
      \<and> activeDownloads (run ops) (timer_taskId tm) = Some task
      \<and> status task = Downloading \<and> 0 < totalBytes (progress task)"
  then have speed: "0 < baseSpeed tm"
    using run_timersInvariant [of ops] by (auto simp: timersInvariant_def)
  from a have left: "downloadedBytes (progress task) < totalBytes (progress task)"
    using unfinishedInvariant_task [OF run_unfinishedInvariant, of ops "timer_taskId tm" task]
    by simp
  from a have "activeDownloads (intervalCallback h r now (run ops)) =
           (activeDownloads (run ops))(timer_taskId tm \<mapsto> advance tm r now task)"
    by (intro intervalCallback_advances) simp_all
  moreover have "downloadedBytes (progress task) < downloadedBytes (progress (advance tm r now task))"
    using speed a left by (intro advance_increases) simp_all
  moreover have "downloadedBytes (progress (advance tm r now task))
      \<le> totalBytes (progress (advance tm r now task))"
    using advance_downloaded_le [of tm r now task] by simp
  ultimately show "\<exists>task'. activeDownloads (intervalCallback h r now (run ops)) (timer_taskId tm)
         = Some task'
         \<and> downloadedBytes (progress task) < downloadedBytes (progress task')
         \<and> downloadedBytes (progress task') \<le> totalBytes (progress task')
         \<and> totalBytes (progress task') = totalBytes (progress task)"
    by simp
next
  assume a: "(\<forall>op\<in>set ops. validOperation op) \<and> 0 \<le> r \<and> r < 1
      \<and> timers (run ops) h = Some tm
      \<and> activeDownloads (run ops) (timer_taskId tm) = Some task
      \<and> status task = Downloading \<and> totalBytes (progress task) = 0"
  then have speed: "0 < baseSpeed tm"
    using run_timersInvariant [of ops] by (auto simp: timersInvariant_def)
  from a have "zeroSizeInvariant (run ops)"
    by (simp add: run_zeroSizeInvariant)
  with a show zero: "downloadedBytes (progress task) = 0"
    by (auto dest: zeroSizeInvariant_task)
  from a have upd: "activeDownloads (intervalCallback h r now (run ops)) =
           (activeDownloads (run ops))(timer_taskId tm \<mapsto> advance tm r now task)"
    by (intro intervalCallback_advances) simp_all
  from a zero speed have "downloadedBytes (progress (advance tm r now task)) = 0"
    by (simp add: advance_zero_bytes)
  with upd show "downloadedOf (intervalCallback h r now (run ops)) (timer_taskId tm) = Some 0"
    by (simp add: downloadedOf_def)
  from a have "status (advance tm r now task) = Downloading"
    using advance_zero_size(1) [of task tm r now] by simp
  with upd show "statusOf (intervalCallback h r now (run ops)) (timer_taskId tm)
      = Some Downloading"
    by (simp add: statusOf_def)
next
  assume "activeDownloads m taskId = Some task \<and> status task = Paused"
  then show "activeDownloads (intervalCallback h r now m) taskId = Some task"
    by (intro intervalCallback_other_task) simp_all
next
  assume a: "activeDownloads m taskId = Some task \<and> status task = Downloading"
  then show "fst (pauseDownload taskId now m) = Inr ()"
    by (simp add: pauseDownload_running)
  from a show paused: "activeDownloads (snd (pauseDownload taskId now m)) taskId =
            Some (task\<lparr>status := Paused, pausedAt := Some now,
                       progress := (progress task)\<lparr>speed := 0\<rparr>\<rparr>)"
    by (simp add: pauseDownload_running)
  then show "downloadedOf (snd (pauseDownload taskId now m)) taskId =
            Some (downloadedBytes (progress task))"
    by (simp add: downloadedOf_def)
  from a show "downloadIntervals (snd (pauseDownload taskId now m)) taskId = None"
    by (simp add: pauseDownload_running)
qed

lemma exampleStart_run:
  "run exampleStart =
     \<lparr>activeDownloads = [''dl_1'' \<mapsto> exampleFresh], downloadIntervals = [''dl_1'' \<mapsto> 0],
      timers = [0 \<mapsto> exampleTimer], nextHandle = 1\<rparr>"
  by (simp add: exampleStart_def run_def initialManager_def startDownload_def
      simulateDownloadProgress_def exampleFresh_def exampleTask_def exampleTimer_def
      exampleQuality_def Let_def)

theorem tick_and_pause_progress_witness:
  "list_all validOperation exampleStart \<and> (0::real) \<le> 1 / 2 \<and> (1 / 2 ::real) < 1
   \<and> timers (run exampleStart) 0 = Some exampleTimer
   \<and> activeDownloads (run exampleStart) (timer_taskId exampleTimer) = Some exampleFresh
   \<and> status exampleFresh = Downloading \<and> 0 < totalBytes (progress exampleFresh)
   \<and> downloadedOf (run exampleStart) ''dl_1'' = Some 0
   \<and> downloadedOf (intervalCallback 0 (1 / 2) 11 (run exampleStart)) ''dl_1'' = Some 125000
   \<and> fst (pauseDownload ''dl_1'' 11 (run exampleStart)) = Inr ()
   \<and> downloadedOf (snd (pauseDownload ''dl_1'' 11 (run exampleStart))) ''dl_1'' = Some 0
   \<and> activeDownloads (exampleManager Paused) ''dl_1'' = Some (exampleTask Paused)
   \<and> status (exampleTask Paused) = Paused
   \<and> activeDownloads (intervalCallback 0 (1 / 2) 11 (exampleManager Paused)) ''dl_1'' =
       Some (exampleTask Paused)
   \<and> list_all validOperation zeroSizeStart
   \<and> timers (run zeroSizeStart) 0 = Some exampleTimer
   \<and> activeDownloads (run zeroSizeStart) (timer_taskId exampleTimer) = Some zeroSizeFresh
   \<and> status zeroSizeFresh = Downloading \<and> totalBytes (progress zeroSizeFresh) = 0
   \<and> downloadedOf (intervalCallback 0 (1 / 2) 11 (run zeroSizeStart)) ''dl_1'' = Some 0
   \<and> statusOf (intervalCallback 0 (1 / 2) 11 (run zeroSizeStart)) ''dl_1'' = Some Downloading"
proof -
  have z: "run zeroSizeStart =
     \<lparr>activeDownloads = [''dl_1'' \<mapsto> zeroSizeFresh], downloadIntervals = [''dl_1'' \<mapsto> 0],
      timers = [0 \<mapsto> exampleTimer], nextHandle = 1\<rparr>"
    by (simp add: zeroSizeStart_def run_def initialManager_def startDownload_def
      simulateDownloadProgress_def zeroSizeFresh_def exampleTask_def exampleTimer_def
      zeroSizeQuality_def exampleQuality_def Let_def)
  have g: "\<forall>op\<in>set zeroSizeStart. validOperation op" "list_all validOperation zeroSizeStart"
    by (simp_all add: zeroSizeStart_def)
  have k: "timers (run zeroSizeStart) 0 = Some exampleTimer"
    "activeDownloads (run zeroSizeStart) (timer_taskId exampleTimer) = Some zeroSizeFresh"
    by (simp_all add: z exampleTimer_def)
  have l: "status zeroSizeFresh = Downloading" "totalBytes (progress zeroSizeFresh) = 0"
    by (simp_all add: zeroSizeFresh_def exampleTask_def createInitialProgress_def)
  have tid: "timer_taskId exampleTimer = ''dl_1''"
    by (simp add: exampleTimer_def)
  have a: "\<forall>op\<in>set exampleStart. validOperation op"
    by (simp add: exampleStart_def)
  have b: "timers (run exampleStart) 0 = Some exampleTimer"
    "activeDownloads (run exampleStart) (timer_taskId exampleTimer) = Some exampleFresh"
    "activeDownloads (run exampleStart) ''dl_1'' = Some exampleFresh"
    by (simp_all add: exampleStart_run exampleTimer_def)
  have c: "status exampleFresh = Downloading" "0 < totalBytes (progress exampleFresh)"
    "downloadedBytes (progress exampleFresh) = 0"
    by (simp_all add: exampleFresh_def exampleTask_def createInitialProgress_def)
  have d: "activeDownloads (exampleManager Paused) ''dl_1'' = Some (exampleTask Paused)"
    "status (exampleTask Paused) = Paused"
    by (simp_all add: exampleManager_def exampleTask_def)
  have e: "downloadedOf (intervalCallback 0 (1 / 2) 11 (run exampleStart)) ''dl_1'' = Some 125000"
    by (simp add: exampleStart_run downloadedOf_def intervalCallback_def exampleTimer_def
        exampleFresh_def exampleTask_def createInitialProgress_def updateProgress_def
        calculatePercentage_def calculateETA_def Math_round_def Math_ceil_def Let_def)
  have f: "list_all validOperation exampleStart"
    by (simp add: exampleStart_def)
  show ?thesis
    using a b c d e f g k l tid
      tick_and_pause_progress [of zeroSizeStart "1 / 2" 0 exampleTimer zeroSizeFresh 11
        "run exampleStart" "''dl_1''"]
      tick_and_pause_progress [of exampleStart "1 / 2" 0 exampleTimer exampleFresh 11
        "run exampleStart" "''dl_1''"]
      tick_and_pause_progress [of exampleStart "1 / 2" 0 exampleTimer "exampleTask Paused" 11
        "exampleManager Paused" "''dl_1''"]
    by (simp add: downloadedOf_def)
qed

subsection \<open>A task of size zero\<close>

lemma intervalCallback_driver:
  assumes "timers m h' = Some tm'"
  shows "(timers (intervalCallback h' r now m) = timers m
          \<and> downloadIntervals (intervalCallback h' r now m) = downloadIntervals m)
       \<or> ((\<forall>t. activeDownloads m (timer_taskId tm') = Some t \<and> status t = Downloading \<longrightarrow>
               status (advance tm' r now t) = Completed)
          \<and> timers (intervalCallback h' r now m) = (timers m)(h' := None)
          \<and> downloadIntervals (intervalCallback h' r now m) =
              (downloadIntervals m)(timer_taskId tm' := None))"
  using assms
  by (auto simp: intervalCallback_def advance_def Let_def stopInterval_def clearInterval_def
      split: option.splits)

lemma intervalCallback_zeroSizeRunning:
  assumes "zeroSizeRunning taskId m"
  shows "zeroSizeRunning taskId (intervalCallback h' r now m)"
proof -
  from assms obtain task h tm where task: "activeDownloads m taskId = Some task"
    and st: "status task = Downloading"
    and sz: "totalBytes (progress task) = 0"
    and pc: "percentage (progress task) = 0"
    and bound: "downloadIntervals m taskId = Some h"
    and live: "timers m h = Some tm" "timer_taskId tm = taskId"
    by (auto simp: zeroSizeRunning_def)
  show ?thesis
  proof (cases "timers m h'")
    case None
    with assms show ?thesis by (simp add: intervalCallback_idle)
  next
    case (Some tm')
    show ?thesis
    proof (cases "timer_taskId tm' = taskId")
      case True
      have adv: "status (advance tm' r now task) = Downloading"
        "percentage (progress (advance tm' r now task)) = 0"
        using advance_zero_size [OF sz, of tm' r now] st by simp_all
      have "activeDownloads (intervalCallback h' r now m) =
              (activeDownloads m)(taskId \<mapsto> advance tm' r now task)"
        using intervalCallback_advances [OF Some, of task r now] task st True by simp
      moreover have "timers (intervalCallback h' r now m) = timers m"
        "downloadIntervals (intervalCallback h' r now m) = downloadIntervals m"
        using intervalCallback_running [OF Some, of task r now] task st True adv by simp_all
      ultimately show ?thesis
        using adv sz bound live by (auto simp: zeroSizeRunning_def)
    next
      case False
      with live Some have other: "h' \<noteq> h" by auto
      have "activeDownloads (intervalCallback h' r now m) taskId = Some task"
        using intervalCallback_tasks [of h' r now m] Some False task by auto
      moreover have "downloadIntervals (intervalCallback h' r now m) taskId = Some h"
        "timers (intervalCallback h' r now m) h = Some tm"
        using intervalCallback_driver [OF Some, of r now] False other bound live by auto
      ultimately show ?thesis
        using st sz pc live by (auto simp: zeroSizeRunning_def)
    qed
  qed
qed

lemma runTicks_snoc:
  "runTicks m (ticks @ [(h, r, now)]) = intervalCallback h r now (runTicks m ticks)"
  by (simp add: runTicks_def)

lemma runTicks_zeroSizeRunning:
  "zeroSizeRunning taskId m \<Longrightarrow> zeroSizeRunning taskId (runTicks m ticks)"
proof (induction ticks rule: rev_induct)
  case Nil
  then show ?case by (simp add: runTicks_def)
next
  case (snoc tick ticks)
  obtain h r now where "tick = (h, r, now)" by (cases tick)
  with snoc show ?case
    by (simp add: runTicks_snoc intervalCallback_zeroSizeRunning)
qed

lemma startDownload_zeroSizeRunning:
  assumes "available q" and "fileSize q = 0"
  shows "zeroSizeRunning taskId (snd (startDownload vi q taskId now r m))"
  using assms
  by (simp add: zeroSizeRunning_def startDownload_def simulateDownloadProgress_def
      createInitialProgress_def Let_def)

text \<open>
  Claim C10. For an available quality option of file size \<open>0\<close>, \<open>startDownload\<close>
  accepts the request and creates a task. After any run of interval callbacks the task
  is still \<open>downloading\<close> at \<open>0\<close> percent, never completed, and the timer bound to it is
  still live: the tick never stops itself.
\<close>

theorem zero_size_never_completes:
  "available q \<and> fileSize q = 0 \<longrightarrow>
     (\<exists>task. fst (startDownload vi q taskId now r m) = Inr task)
     \<and> (\<forall>ticks. \<exists>task' h tm.
            activeDownloads (runTicks (snd (startDownload vi q taskId now r m)) ticks) taskId
              = Some task'
            \<and> status task' = Downloading \<and> status task' \<noteq> Completed
            \<and> percentage (progress task') = 0
            \<and> downloadIntervals (runTicks (snd (startDownload vi q taskId now r m)) ticks) taskId
                = Some h
            \<and> timers (runTicks (snd (startDownload vi q taskId now r m)) ticks) h = Some tm
            \<and> timer_taskId tm = taskId)"
proof (intro impI conjI allI)
  assume a: "available q \<and> fileSize q = 0"
  then show "\<exists>task. fst (startDownload vi q taskId now r m) = Inr task"
    by (simp add: startDownload_def Let_def)
  fix ticks
  from a have "zeroSizeRunning taskId (runTicks (snd (startDownload vi q taskId now r m)) ticks)"
    by (intro runTicks_zeroSizeRunning startDownload_zeroSizeRunning) simp_all
  then show "\<exists>task' h tm.
            activeDownloads (runTicks (snd (startDownload vi q taskId now r m)) ticks) taskId
              = Some task'
            \<and> status task' = Downloading \<and> status task' \<noteq> Completed
            \<and> percentage (progress task') = 0
            \<and> downloadIntervals (runTicks (snd (startDownload vi q taskId now r m)) ticks) taskId
                = Some h
            \<and> timers (runTicks (snd (startDownload vi q taskId now r m)) ticks) h = Some tm
            \<and> timer_taskId tm = taskId"
    by (auto simp: zeroSizeRunning_def)
qed

theorem zero_size_never_completes_witness:
  "available zeroSizeQuality \<and> fileSize zeroSizeQuality = 0
   \<and> statusOf (runTicks (snd (startDownload exampleVideo zeroSizeQuality ''dl_1'' 10 (1 / 2)
        initialManager)) zeroSizeTicks) ''dl_1'' = Some Downloading
   \<and> downloadIntervals (runTicks (snd (startDownload exampleVideo zeroSizeQuality ''dl_1'' 10
        (1 / 2) initialManager)) zeroSizeTicks) ''dl_1'' = Some 0"
proof -
  have a: "available zeroSizeQuality \<and> fileSize zeroSizeQuality = 0"
    by (simp add: zeroSizeQuality_def exampleQuality_def)
  have b: "downloadIntervals (runTicks (snd (startDownload exampleVideo zeroSizeQuality ''dl_1'' 10
        (1 / 2) initialManager)) zeroSizeTicks) ''dl_1'' = Some 0"
    using a
    by (simp add: runTicks_def zeroSizeTicks_def initialManager_def startDownload_def
      simulateDownloadProgress_def intervalCallback_def updateProgress_def
      calculatePercentage_def calculateETA_def createInitialProgress_def Let_def)
  from a b show ?thesis
    using zero_size_never_completes [of zeroSizeQuality exampleVideo "''dl_1''" 10 "1 / 2"
        initialManager]
    by (auto simp: statusOf_def)
qed

end
